theory Spec2Isabelle
  imports Complex_Main "HOL-Library.Sublist"
begin

section \<open>String operations of the host language\<close>

text \<open>
  Strings are character lists. The patterns searched for by the program are ASCII, so
  matching them on bytes and on UTF-16 code units gives the same answers.
\<close>

text \<open>\<^verbatim>\<open>s.startsWith(t)\<close>\<close>

fun str_startsWith :: "string \<Rightarrow> string \<Rightarrow> bool" where
  "str_startsWith s [] = True"
| "str_startsWith [] (d # ds) = False"
| "str_startsWith (c # cs) (d # ds) = (c = d \<and> str_startsWith cs ds)"

text \<open>\<^verbatim>\<open>s.includes(t)\<close>: does \<open>t\<close> occur in \<open>s\<close> at some position.\<close>

fun str_includes :: "string \<Rightarrow> string \<Rightarrow> bool" where
  "str_includes [] t = (t = [])"
| "str_includes (c # cs) t = (str_startsWith (c # cs) t \<or> str_includes cs t)"

text \<open>\<^verbatim>\<open>s.endsWith(t)\<close>\<close>

definition str_endsWith :: "string \<Rightarrow> string \<Rightarrow> bool" where
  "str_endsWith s t = str_startsWith (rev s) (rev t)"

section \<open>Types of the connection checker\<close>

text \<open>The enum \<^verbatim>\<open>ProfileStatus\<close> and the strings it stands for.\<close>

datatype ProfileStatus = PENDING | ACCEPTED | NOT_CONNECTED | UNKNOWN

fun status_value :: "ProfileStatus \<Rightarrow> string" where
  "status_value PENDING = ''pending''"
| "status_value ACCEPTED = ''accepted''"
| "status_value NOT_CONNECTED = ''not_connected''"
| "status_value UNKNOWN = ''unknown''"

text \<open>The interface \<^verbatim>\<open>Profile\<close>; the optional \<^verbatim>\<open>status\<close> is absent until classified.\<close>

record Profile =
  url :: string
  status :: "ProfileStatus option"
  row :: nat

text \<open>
  The object returned by the in-page evaluation of \<^verbatim>\<open>determineConnectionStatus\<close>:
  the three button flags, the badge text and the two markup flags.
\<close>

record PageSignals =
  hasConnectButton :: bool
  hasPendingButton :: bool
  hasMessageButton :: bool
  connectionDegree :: string
  isPendingInHtml :: bool
  isConnectedInHtml :: bool

text \<open>The object \<^verbatim>\<open>{status, confidence, reasoning}\<close> that the classifier returns.\<close>

record ClassificationResult =
  result_status :: ProfileStatus
  confidence :: rat
  reasoning :: string

section \<open>The classifier\<close>

text \<open>
  The decision logic of \<^verbatim>\<open>determineConnectionStatus\<close>: three variables start at the
  values of the unknown case and the first branch of the chain that matches overwrites them.
\<close>

definition decide_status :: "PageSignals \<Rightarrow> ClassificationResult" where
  "decide_status evaluation =
     (let init = \<lparr>result_status = UNKNOWN, confidence = 0.5,
                  reasoning = ''Could not determine connection status with confidence''\<rparr>
      in if isPendingInHtml evaluation \<or> hasPendingButton evaluation then
           init\<lparr>result_status := PENDING,
                reasoning := ''Found 'Pending' button or pending status in profile data'',
                confidence := 0.95\<rparr>
         else if isConnectedInHtml evaluation
                 \<or> (hasMessageButton evaluation \<and> \<not> hasConnectButton evaluation)
                 \<or> str_includes (connectionDegree evaluation) ''1st'' then
           init\<lparr>result_status := ACCEPTED,
                reasoning := ''Profile is a 1st degree connection with message button'',
                confidence := 0.95\<rparr>
         else if hasConnectButton evaluation
                 \<or> str_includes (connectionDegree evaluation) ''2nd''
                 \<or> str_includes (connectionDegree evaluation) ''3rd'' then
           init\<lparr>result_status := NOT_CONNECTED,
                reasoning := ''Found 'Connect' button or 2nd/3rd degree connection'',
                confidence := 0.9\<rparr>
         else init)"

section \<open>The URL normaliser\<close>

text \<open>
  \<^verbatim>\<open>s.split(sep)\<close> for a separator of one character: the pieces between the
  occurrences of the separator, never an empty array.
\<close>

fun str_split :: "string \<Rightarrow> char \<Rightarrow> string list" where
  "str_split [] sep = [[]]"
| "str_split (c # cs) sep =
     (if c = sep then [] # str_split cs sep
      else (case str_split cs sep of
              [] \<Rightarrow> [[c]]
            | piece # pieces \<Rightarrow> (c # piece) # pieces))"

text \<open>
  \<^verbatim>\<open>s.replace(/\/$/, '')\<close>: the pattern has no flags, so \<^verbatim>\<open>$\<close> is the end of the
  input and at most one slash, the last character, is removed.
\<close>

definition strip_trailing_slash :: "string \<Rightarrow> string" where
  "strip_trailing_slash s = (if s \<noteq> [] \<and> last s = CHR ''/'' then butlast s else s)"

text \<open>
  \<^verbatim>\<open>s.replace(pat, rep)\<close> with a string pattern: only the first occurrence is replaced.
  The replacement used by the program has no \<^verbatim>\<open>$\<close>, so it is inserted as it is.
\<close>

fun str_replace :: "string \<Rightarrow> string \<Rightarrow> string \<Rightarrow> string" where
  "str_replace [] pat rep = (if pat = [] then rep else [])"
| "str_replace (c # cs) pat rep =
     (if str_startsWith (c # cs) pat then rep @ drop (length pat) (c # cs)
      else c # str_replace cs pat rep)"

text \<open>\<^verbatim>\<open>GoogleSheetsClient.normalizeLinkedInUrl\<close>; its console warnings are left out.\<close>

definition normalizeLinkedInUrl :: "string \<Rightarrow> string" where
  "normalizeLinkedInUrl u =
     (if u = [] then []
      else if \<not> str_includes u ''linkedin.com'' then u
      else
        (let normalizedUrl = strip_trailing_slash (hd (str_split u CHR ''?''))
         in if \<not> str_includes normalizedUrl ''/in/'' then
              (if str_endsWith normalizedUrl ''linkedin.com'' then u
               else str_replace normalizedUrl ''linkedin.com/'' ''linkedin.com/in/'')
            else normalizedUrl))"

text \<open>
  The stripping as the specification words it: everything from the first question mark on
  is removed, then one trailing slash.
\<close>

definition without_query_and_slash :: "string \<Rightarrow> string" where
  "without_query_and_slash u =
     (let s = takeWhile (\<lambda>ch. ch \<noteq> CHR ''?'') u in if suffix ''/'' s then butlast s else s)"

section \<open>Numbers as text\<close>

definition digit_char :: "nat \<Rightarrow> char" where
  "digit_char d = ''0123456789'' ! (d mod 10)"

text \<open>A row number inside a template string: its decimal digits.\<close>

function nat_toString :: "nat \<Rightarrow> string" where
  "nat_toString n =
     (if n < 10 then [digit_char n] else nat_toString (n div 10) @ [digit_char (n mod 10)])"
  by pat_completeness auto
termination
  by (relation "measure id") auto

declare nat_toString.simps [simp del]

text \<open>
  \<^verbatim>\<open>confidence.toString()\<close>. The confidences of the program are non-negative multiples
  of 0.01; for those the shortest decimal that reads back as the number is the integer part,
  followed by the one or two fraction digits that are needed.
\<close>

definition number_toString :: "rat \<Rightarrow> string" where
  "number_toString q =
     (let h = nat \<lfloor>q * 100\<rfloor>; tenths = (h mod 100) div 10; hundredths = h mod 10
      in nat_toString (h div 100)
         @ (if tenths = 0 \<and> hundredths = 0 then []
            else ''.'' @ [digit_char tenths]
                 @ (if hundredths = 0 then [] else [digit_char hundredths])))"

section \<open>The outside world\<close>

text \<open>An exception value: an \<^verbatim>\<open>Error\<close> with its message.\<close>

datatype js_error = Error (message: string)

text \<open>
  What the handlers of the main loop print. The progress messages of the program are
  not recorded.
\<close>

datatype console_message =
    Sheet_Not_Editable
  | Would_Update_Row nat ProfileStatus
  | Error_Updating_Sheet string
  | Error_Processing string

text \<open>
  The calls that leave the program, in the order they are made: page navigation, the
  set-up of a spreadsheet client, the three spreadsheet requests (with spreadsheet id,
  range and values), timers, file writes and the handlers' console output.
\<close>

datatype event =
    Page_Goto string
  | Initialize_Client
  | Spreadsheets_Get string
  | Values_Get string string
  | Values_Update string string "string list list"
  | Set_Timeout nat
  | Write_File string string
  | Console console_message

text \<open>
  The answers of the outside world. Each kind of call is answered by its number in the
  run: the browser by the number of the page visit (navigation, the rate-limit probe and
  the in-page evaluation of the signals, each of which may throw), the spreadsheet backend
  by the number of the request of that kind.
\<close>

record env =
  goto_at :: "nat \<Rightarrow> js_error option"
  rate_limited_at :: "nat \<Rightarrow> js_error + bool"
  evaluation_at :: "nat \<Rightarrow> js_error + PageSignals"
  construct_at :: "nat \<Rightarrow> js_error option"
  sheets_get_at :: "nat \<Rightarrow> js_error option"
  values_get_at :: "nat \<Rightarrow> js_error + string list list option"
  values_update_at :: "nat \<Rightarrow> js_error option"

text \<open>The calls counted so far and the trace of events.\<close>

record world =
  visits :: nat
  constructs :: nat
  gets :: nat
  reads :: nat
  updates :: nat
  trace :: "event list"

definition emit :: "event \<Rightarrow> world \<Rightarrow> world" where
  "emit ev w = w\<lparr>trace := trace w @ [ev]\<rparr>"

section \<open>The spreadsheet client\<close>

text \<open>The fields of \<^verbatim>\<open>GoogleSheetsClient\<close>; the API handle belongs to the outside world.\<close>

record GoogleSheetsClient =
  spreadsheetId :: string
  sheetName :: string
  initialized :: bool
  maxRetries :: nat

text \<open>
  The constructor: \<^verbatim>\<open>initializeClient\<close> reads the credentials and may throw;
  a new client is not initialised and retries three times.
\<close>

definition new_GoogleSheetsClient ::
  "env \<Rightarrow> string \<Rightarrow> string \<Rightarrow> world \<Rightarrow> (js_error + GoogleSheetsClient) \<times> world" where
  "new_GoogleSheetsClient e sid sn w =
     (let w1 = emit Initialize_Client (w\<lparr>constructs := Suc (constructs w)\<rparr>)
      in case construct_at e (constructs w) of
           Some err \<Rightarrow> (Inl err, w1)
         | None \<Rightarrow>
             (Inr \<lparr>spreadsheetId = sid, sheetName = sn, initialized = False, maxRetries = 3\<rparr>,
              w1))"

text \<open>\<^verbatim>\<open>init\<close>: one request for the spreadsheet; on success the client is initialised.\<close>

definition client_init ::
  "env \<Rightarrow> GoogleSheetsClient \<Rightarrow> world \<Rightarrow> (js_error + unit) \<times> GoogleSheetsClient \<times> world" where
  "client_init e c w =
     (let w1 = emit (Spreadsheets_Get (spreadsheetId c)) (w\<lparr>gets := Suc (gets w)\<rparr>)
      in case sheets_get_at e (gets w) of
           Some err \<Rightarrow> (Inl err, c, w1)
         | None \<Rightarrow> (Inr (), c\<lparr>initialized := True\<rparr>, w1))"

text \<open>The guard \<^verbatim>\<open>if (!this.initialized) await this.init()\<close> that opens each method.\<close>

definition ensure_initialized ::
  "env \<Rightarrow> GoogleSheetsClient \<Rightarrow> world \<Rightarrow> (js_error + unit) \<times> GoogleSheetsClient \<times> world" where
  "ensure_initialized e c w = (if \<not> initialized c then client_init e c w else (Inr (), c, w))"

text \<open>
  \<^verbatim>\<open>getProfiles\<close>. A row of the fetched range is the list of its cells; \<^verbatim>\<open>row[0]\<close>
  is undefined for a row without cells. \<^verbatim>\<open>trim\<close> is the string method of the host
  language and is a parameter here.
\<close>

definition row_profile :: "(string \<Rightarrow> string) \<Rightarrow> nat \<times> string list \<Rightarrow> Profile option" where
  "row_profile trim ir =
     (case ir of (index, r) \<Rightarrow>
        (case r of
           [] \<Rightarrow> None
         | cell # cells \<Rightarrow>
             if cell = [] \<or> trim cell = [] then None
             else Some \<lparr>url = normalizeLinkedInUrl cell, status = None, row = index + 2\<rparr>))"

text \<open>The \<^verbatim>\<open>map\<close> over the rows with their indices, then the \<^verbatim>\<open>filter\<close> of the nulls.\<close>

definition rows_profiles :: "(string \<Rightarrow> string) \<Rightarrow> string list list \<Rightarrow> Profile list" where
  "rows_profiles trim rows =
     map the (filter (\<lambda>profile. profile \<noteq> None) (map (row_profile trim) (enumerate 0 rows)))"

definition getProfiles ::
  "(string \<Rightarrow> string) \<Rightarrow> env \<Rightarrow> GoogleSheetsClient \<Rightarrow> world
     \<Rightarrow> (js_error + Profile list) \<times> GoogleSheetsClient \<times> world" where
  "getProfiles trim e c w =
     (case ensure_initialized e c w of
        (Inl err, c1, w1) \<Rightarrow> (Inl err, c1, w1)
      | (Inr u, c1, w1) \<Rightarrow>
          (let w2 = emit (Values_Get (spreadsheetId c1) (sheetName c1 @ ''!A2:A''))
                      (w1\<lparr>reads := Suc (reads w1)\<rparr>)
           in case values_get_at e (reads w1) of
                Inl err \<Rightarrow> (Inl err, c1, w2)
              | Inr None \<Rightarrow> (Inr [], c1, w2)
              | Inr (Some rows) \<Rightarrow>
                  if length rows = 0 then (Inr [], c1, w2)
                  else (Inr (rows_profiles trim rows), c1, w2)))"

text \<open>The range of a status update: columns B and C of the row, on the client's sheet.\<close>

definition status_range :: "string \<Rightarrow> nat \<Rightarrow> string" where
  "status_range sn rowNumber =
     sn @ ''!B'' @ nat_toString rowNumber @ '':C'' @ nat_toString rowNumber"

text \<open>
  The retry loop of \<^verbatim>\<open>updateProfileStatus\<close>, from attempt number \<open>attempt\<close> on: one
  write per attempt; after a failed attempt that is not the last, a wait of
  \<open>attempt * 1000\<close> milliseconds; the error of the last attempt is thrown.
\<close>

function update_attempts ::
  "env \<Rightarrow> GoogleSheetsClient \<Rightarrow> nat \<Rightarrow> string \<Rightarrow> rat \<Rightarrow> nat \<Rightarrow> world
     \<Rightarrow> (js_error + unit) \<times> world" where
  "update_attempts e c rowNumber st conf attempt w =
     (if attempt \<le> maxRetries c then
        (let w1 = emit (Values_Update (spreadsheetId c) (status_range (sheetName c) rowNumber)
                          [[st, number_toString conf]])
                    (w\<lparr>updates := Suc (updates w)\<rparr>)
         in case values_update_at e (updates w) of
              None \<Rightarrow> (Inr (), w1)
            | Some err \<Rightarrow>
                if attempt < maxRetries c then
                  update_attempts e c rowNumber st conf (Suc attempt)
                    (emit (Set_Timeout (attempt * 1000)) w1)
                else (Inl err, w1))
      else (Inr (), w))"
  by pat_completeness auto
termination
  by (relation "measure (\<lambda>(e, c, rowNumber, st, conf, attempt, w). Suc (maxRetries c) - attempt)")
    auto

declare update_attempts.simps [simp del]

text \<open>
  \<^verbatim>\<open>updateProfileStatus\<close>: the confidence has the default 0.9; the outer handler prints
  a diagnostic and throws the same error again.
\<close>

definition updateProfileStatus ::
  "env \<Rightarrow> GoogleSheetsClient \<Rightarrow> nat \<Rightarrow> string \<Rightarrow> rat option \<Rightarrow> world
     \<Rightarrow> (js_error + unit) \<times> GoogleSheetsClient \<times> world" where
  "updateProfileStatus e c rowNumber st conf_arg w =
     (let conf = (case conf_arg of None \<Rightarrow> 0.9 | Some v \<Rightarrow> v)
      in case ensure_initialized e c w of
           (Inl err, c1, w1) \<Rightarrow> (Inl err, c1, w1)
         | (Inr u, c1, w1) \<Rightarrow>
             (case update_attempts e c1 rowNumber st conf 1 w1 of
                (r, w2) \<Rightarrow> (r, c1, w2)))"

section \<open>Processing the profiles\<close>

text \<open>
  \<^verbatim>\<open>determineConnectionStatus\<close>: the in-page evaluation is answered by the browser,
  the decision is taken on its result.
\<close>

definition determineConnectionStatus :: "env \<Rightarrow> nat \<Rightarrow> js_error + ClassificationResult" where
  "determineConnectionStatus e visit =
     (case evaluation_at e visit of
        Inl err \<Rightarrow> Inl err
      | Inr evaluation \<Rightarrow> Inr (decide_status evaluation))"

text \<open>
  \<^verbatim>\<open>processProfile\<close>: navigate, throw when the page is rate limited, classify, and
  assign the status to the profile.
\<close>

definition processProfile :: "env \<Rightarrow> Profile \<Rightarrow> world \<Rightarrow> (js_error + Profile) \<times> world" where
  "processProfile e profile w =
     (let visit = visits w;
          w1 = emit (Page_Goto (url profile)) (w\<lparr>visits := Suc visit\<rparr>)
      in case goto_at e visit of
           Some err \<Rightarrow> (Inl err, w1)
         | None \<Rightarrow>
             (case rate_limited_at e visit of
                Inl err \<Rightarrow> (Inl err, w1)
              | Inr isRateLimited \<Rightarrow>
                  if isRateLimited then
                    (Inl (Error ''LinkedIn is rate limiting the requests. Try again later.''), w1)
                  else
                    (case determineConnectionStatus e visit of
                       Inl err \<Rightarrow> (Inl err, w1)
                     | Inr connectionStatus \<Rightarrow>
                         (Inr (profile\<lparr>status := Some (result_status connectionStatus)\<rparr>),
                          w1))))"

text \<open>The body of the inner \<^verbatim>\<open>try\<close> of the main loop: a new client, then the update.\<close>

definition try_update ::
  "env \<Rightarrow> string \<Rightarrow> string \<Rightarrow> Profile \<Rightarrow> ProfileStatus \<Rightarrow> world \<Rightarrow> (js_error + unit) \<times> world" where
  "try_update e sid sn profile st w =
     (case new_GoogleSheetsClient e sid sn w of
        (Inl err, w1) \<Rightarrow> (Inl err, w1)
      | (Inr sheetsClient, w1) \<Rightarrow>
          (case updateProfileStatus e sheetsClient (row profile) (status_value st) None w1 of
             (r, c1, w2) \<Rightarrow> (r, w2)))"

text \<open>The handler of the inner \<^verbatim>\<open>try\<close>.\<close>

definition update_failed :: "Profile \<Rightarrow> ProfileStatus \<Rightarrow> js_error \<Rightarrow> world \<Rightarrow> world" where
  "update_failed profile st err w =
     (let errorMessage = message err
      in if str_includes errorMessage ''Login Required''
            \<or> str_includes errorMessage ''insufficient permission'' then
           emit (Console (Would_Update_Row (row profile) st)) (emit (Console Sheet_Not_Editable) w)
         else emit (Console (Error_Updating_Sheet errorMessage)) w)"

text \<open>
  One turn of the loop of \<^verbatim>\<open>main\<close>: the outer \<^verbatim>\<open>try\<close> with its handler, then the
  pause of three seconds. The profile object is changed in place by \<^verbatim>\<open>processProfile\<close>
  only when it returns; each profile of the list is an object of its own.
\<close>

definition main_iteration ::
  "env \<Rightarrow> string \<Rightarrow> string \<Rightarrow> Profile \<Rightarrow> Profile list \<Rightarrow> world \<Rightarrow> Profile list \<times> world" where
  "main_iteration e sid sn profile results w =
     (case
        (case processProfile e profile w of
           (Inl err, w1) \<Rightarrow> (results, emit (Console (Error_Processing (url profile))) w1)
         | (Inr profile1, w1) \<Rightarrow>
             (results @ [profile1],
              (case status profile1 of
                 None \<Rightarrow> w1
               | Some st \<Rightarrow>
                   (case try_update e sid sn profile1 st w1 of
                      (Inl err, w2) \<Rightarrow> update_failed profile1 st err w2
                    | (Inr u, w2) \<Rightarrow> w2))))
      of (results1, w3) \<Rightarrow> (results1, emit (Set_Timeout 3000) w3))"

fun main_loop ::
  "env \<Rightarrow> string \<Rightarrow> string \<Rightarrow> Profile list \<Rightarrow> Profile list \<Rightarrow> world \<Rightarrow> Profile list \<times> world" where
  "main_loop e sid sn [] results w = (results, w)"
| "main_loop e sid sn (profile # profiles) results w =
     (case main_iteration e sid sn profile results w of
        (results1, w1) \<Rightarrow> main_loop e sid sn profiles results1 w1)"

section \<open>The export to a file\<close>

text \<open>\<^verbatim>\<open>pieces.join(sep)\<close>\<close>

fun str_join :: "string list \<Rightarrow> string \<Rightarrow> string" where
  "str_join [] sep = []"
| "str_join [piece] sep = piece"
| "str_join (piece # pieces) sep = piece @ sep @ str_join pieces sep"

text \<open>
  \<^verbatim>\<open>exportResultsToCSV\<close>: the header line, one line \<^verbatim>\<open>url,status\<close> per result, in a
  file named after the current time \<open>timestamp\<close> with its colons and dots replaced by dashes.
  No function of the program calls it.
\<close>

definition exportResultsToCSV :: "string \<Rightarrow> (string \<times> string) list \<Rightarrow> world \<Rightarrow> world" where
  "exportResultsToCSV timestamp results w =
     (let csvContent = ''LinkedIn URL,Connection Status'' @ [CHR 0x0A]
                       @ str_join (map (\<lambda>(u, st). u @ '','' @ st) results) [CHR 0x0A];
          filename = ''linkedin_results_''
                     @ map (\<lambda>ch. if ch = CHR '':'' \<or> ch = CHR ''.'' then CHR ''-'' else ch) timestamp
                     @ ''.csv''
      in emit (Write_File filename csvContent) w)"

section \<open>Observations on a run\<close>

text \<open>
  The processing of the page visit with the given number returns a status: navigation
  succeeds, the page is not rate limited and the in-page evaluation returns the signals.
\<close>

definition processing_succeeds :: "env \<Rightarrow> nat \<Rightarrow> bool" where
  "processing_succeeds e visit \<longleftrightarrow>
     goto_at e visit = None \<and> rate_limited_at e visit = Inr False
     \<and> (case evaluation_at e visit of Inl err \<Rightarrow> False | Inr evaluation \<Rightarrow> True)"

text \<open>
  What the turn of the loop for a profile may put on the trace after its navigation: the
  set-up and initialisation of a client, writes of a status value and the text 0.9 to the
  status range of the profile's row, timers and console output.
\<close>

fun turn_event :: "string \<Rightarrow> string \<Rightarrow> Profile \<Rightarrow> event \<Rightarrow> bool" where
  "turn_event sid sn profile (Page_Goto u) = False"
| "turn_event sid sn profile Initialize_Client = True"
| "turn_event sid sn profile (Spreadsheets_Get sid') = (sid' = sid)"
| "turn_event sid sn profile (Values_Get sid' rng) = False"
| "turn_event sid sn profile (Values_Update sid' rng vals) =
     (sid' = sid \<and> rng = status_range sn (row profile)
      \<and> vals \<in> (\<lambda>st. [[status_value st, ''0.9'']]) ` {PENDING, ACCEPTED, NOT_CONNECTED, UNKNOWN})"
| "turn_event sid sn profile (Set_Timeout ms) = True"
| "turn_event sid sn profile (Write_File name content) = False"
| "turn_event sid sn profile (Console msg) = True"

text \<open>The files written in a trace, with their contents.\<close>

fun file_writes :: "event list \<Rightarrow> (string \<times> string) list" where
  "file_writes [] = []"
| "file_writes (Write_File name content # evs) = (name, content) # file_writes evs"
| "file_writes (ev # evs) = file_writes evs"

text \<open>
  What the handler of the inner \<^verbatim>\<open>try\<close> prints for an error: the two messages
  about a sheet that is not editable when the error message has one of the two markers, the
  error message otherwise.
\<close>

definition handler_messages :: "Profile \<Rightarrow> ProfileStatus \<Rightarrow> js_error \<Rightarrow> console_message list" where
  "handler_messages profile st err =
     (if str_includes (message err) ''Login Required''
         \<or> str_includes (message err) ''insufficient permission''
      then [Sheet_Not_Editable, Would_Update_Row (row profile) st]
      else [Error_Updating_Sheet (message err)])"

section \<open>A sample run\<close>

text \<open>
  A sheet of six data rows, three of them without a URL, and a run over its three
  profiles: the first page is rate limited, the second profile is pending and its three
  writes fail, the third has a connect button and its write goes through.
\<close>

definition world0 :: world where
  "world0 = \<lparr>visits = 0, constructs = 0, gets = 0, reads = 0, updates = 0, trace = []\<rparr>"

definition no_signals :: PageSignals where
  "no_signals = \<lparr>hasConnectButton = False, hasPendingButton = False, hasMessageButton = False,
     connectionDegree = [], isPendingInHtml = False, isConnectedInHtml = False\<rparr>"

definition pending_signals :: PageSignals where
  "pending_signals = \<lparr>hasConnectButton = True, hasPendingButton = True, hasMessageButton = False,
     connectionDegree = ''2nd'', isPendingInHtml = False, isConnectedInHtml = False\<rparr>"

definition connect_signals :: PageSignals where
  "connect_signals = \<lparr>hasConnectButton = True, hasPendingButton = False, hasMessageButton = True,
     connectionDegree = ''3rd'', isPendingInHtml = False, isConnectedInHtml = False\<rparr>"

definition sample_rows :: "string list list" where
  "sample_rows = [[''https://www.linkedin.com/in/williamhgates/''], [], [''   ''],
                  [''https://www.linkedin.com/in/satyanadella?trk=x'', ''pending''], [[]],
                  [''linkedin.com/sundarpichai'']]"

definition sample_env :: env where
  "sample_env = \<lparr>
     goto_at = (\<lambda>n. None),
     rate_limited_at = (\<lambda>n. Inr (n = 0)),
     evaluation_at = (\<lambda>n. if n = 1 then Inr pending_signals else Inr connect_signals),
     construct_at = (\<lambda>n. None),
     sheets_get_at = (\<lambda>n. None),
     values_get_at = (\<lambda>n. Inr (Some sample_rows)),
     values_update_at = (\<lambda>n. if n < 3 then Some (Error ''Quota exceeded'') else None)\<rparr>"

definition sample_profiles :: "Profile list" where
  "sample_profiles =
     [\<lparr>url = ''https://www.linkedin.com/in/williamhgates'', status = None, row = 2\<rparr>,
      \<lparr>url = ''https://www.linkedin.com/in/satyanadella'', status = None, row = 5\<rparr>,
      \<lparr>url = ''linkedin.com/in/sundarpichai'', status = None, row = 7\<rparr>]"

definition sample_client :: GoogleSheetsClient where
  "sample_client = \<lparr>spreadsheetId = ''sheet-id'', sheetName = ''Sheet1'', initialized = False,
     maxRetries = 3\<rparr>"

text \<open>
  A second run over the same profiles: the first initialisation of a client is refused,
  the later ones and all writes succeed.
\<close>

definition flaky_env :: env where
  "flaky_env = sample_env\<lparr>
     sheets_get_at := (\<lambda>n. if n = 0 then Some (Error ''Request had insufficient permission'')
                            else None),
     values_update_at := (\<lambda>n. None)\<rparr>"

text \<open>A \<^verbatim>\<open>trim\<close> for the sample: it removes the blanks at both ends.\<close>

definition trim_spaces :: "string \<Rightarrow> string" where
  "trim_spaces s =
     rev (dropWhile (\<lambda>ch. ch = CHR '' '') (rev (dropWhile (\<lambda>ch. ch = CHR '' '') s)))"

section \<open>Facts about the string operations\<close>

lemma str_startsWith_prefix: "str_startsWith s t \<longleftrightarrow> prefix t s"
  by (induction s t rule: str_startsWith.induct) auto

lemma str_includes_sublist: "str_includes s t \<longleftrightarrow> sublist t s"
  by (induction s) (auto simp: str_startsWith_prefix sublist_Cons_right)

lemma str_endsWith_suffix: "str_endsWith s t \<longleftrightarrow> suffix t s"
  by (simp add: str_endsWith_def str_startsWith_prefix suffix_to_prefix)

section \<open>Facts about the normaliser\<close>

lemma str_split_not_Nil: "str_split s sep \<noteq> []"
  by (induction s) (auto split: list.splits)

lemma hd_str_split: "hd (str_split s sep) = takeWhile (\<lambda>ch. ch \<noteq> sep) s"
  using str_split_not_Nil [of _ sep]
  by (induction s) (auto split: list.splits)

lemma suffix_slash: "suffix ''/'' s \<longleftrightarrow> s \<noteq> [] \<and> last s = CHR ''/''"
proof (cases s rule: rev_cases)
  case Nil
  then show ?thesis by simp
next
  case (snoc ys y)
  then show ?thesis by (auto simp: suffix_def)
qed

lemma stripped_eq:
  "strip_trailing_slash (hd (str_split u CHR ''?'')) = without_query_and_slash u"
  by (simp add: strip_trailing_slash_def without_query_and_slash_def hd_str_split suffix_slash
      Let_def)

lemma normalizeLinkedInUrl_cases:
  "normalizeLinkedInUrl u =
     (if u = [] then []
      else if \<not> sublist ''linkedin.com'' u then u
      else if sublist ''/in/'' (without_query_and_slash u) then without_query_and_slash u
      else if suffix ''linkedin.com'' (without_query_and_slash u) then u
      else str_replace (without_query_and_slash u) ''linkedin.com/'' ''linkedin.com/in/'')"
  by (simp add: normalizeLinkedInUrl_def stripped_eq str_includes_sublist str_endsWith_suffix
      Let_def)

lemma str_replace_absent: "\<not> sublist pat s \<Longrightarrow> str_replace s pat rep = s"
  by (induction s) (auto simp: str_startsWith_prefix sublist_Cons_right)

lemma str_replace_present:
  "sublist pat s \<Longrightarrow> \<exists>pre post. s = pre @ pat @ post \<and> str_replace s pat rep = pre @ rep @ post"
proof (induction s)
  case Nil
  then show ?case by simp
next
  case (Cons c cs)
  show ?case
  proof (cases "prefix pat (c # cs)")
    case True
    then obtain post where post: "c # cs = pat @ post" by (auto simp: prefix_def)
    then have dr: "drop (length pat) (c # cs) = post" by simp
    from True have "str_replace (c # cs) pat rep = rep @ drop (length pat) (c # cs)"
      by (simp add: str_startsWith_prefix)
    with dr have "str_replace (c # cs) pat rep = [] @ rep @ post" by simp
    moreover from post have "c # cs = [] @ pat @ post" by simp
    ultimately show ?thesis by blast
  next
    case False
    with Cons.prems have "sublist pat cs" by (simp add: sublist_Cons_right)
    from Cons.IH [OF this] obtain pre post where
      "cs = pre @ pat @ post" "str_replace cs pat rep = pre @ rep @ post" by blast
    with False have "c # cs = (c # pre) @ pat @ post"
      "str_replace (c # cs) pat rep = (c # pre) @ rep @ post"
      by (simp_all add: str_startsWith_prefix)
    then show ?thesis by blast
  qed
qed

lemma str_replace_chars: "set (str_replace s pat rep) \<subseteq> set s \<union> set rep"
proof (induction s)
  case Nil
  show ?case by auto
next
  case (Cons c cs)
  have "set (drop (length pat) (c # cs)) \<subseteq> set (c # cs)" by (rule set_drop_subset)
  with Cons show ?case by auto
qed

lemma without_query_chars: "CHR ''?'' \<notin> set (without_query_and_slash u)"
proof -
  have "CHR ''?'' \<notin> set (takeWhile (\<lambda>ch. ch \<noteq> CHR ''?'') u)"
    by (auto dest: set_takeWhileD)
  moreover have "set (butlast xs) \<subseteq> set xs" for xs :: string
    by (auto dest: in_set_butlastD)
  ultimately show ?thesis
    by (auto simp: without_query_and_slash_def Let_def)
qed


lemma without_query_and_slash_fixed:
  assumes "CHR ''?'' \<notin> set r" and "\<not> suffix ''/'' r"
  shows "without_query_and_slash r = r"
proof -
  from assms(1) have tw: "takeWhile (\<lambda>ch. ch \<noteq> CHR ''?'') r = r"
    by (auto simp: takeWhile_eq_all_conv)
  show ?thesis
    unfolding without_query_and_slash_def Let_def tw using assms(2) by simp
qed

lemma without_query_and_slash_no_slash:
  assumes "\<not> suffix ''//'' (takeWhile (\<lambda>ch. ch \<noteq> CHR ''?'') u)"
  shows "\<not> suffix ''/'' (without_query_and_slash u)"
proof (cases "suffix ''/'' (takeWhile (\<lambda>ch. ch \<noteq> CHR ''?'') u)")
  case False
  then show ?thesis by (simp add: without_query_and_slash_def)
next
  case True
  then obtain ys where ys: "takeWhile (\<lambda>ch. ch \<noteq> CHR ''?'') u = ys @ ''/''"
    by (auto simp: suffix_def)
  with True have eq: "without_query_and_slash u = ys"
    by (simp add: without_query_and_slash_def)
  show ?thesis
  proof
    assume "suffix ''/'' (without_query_and_slash u)"
    with eq obtain zs where "ys = zs @ ''/''" by (auto simp: suffix_def)
    with ys have "takeWhile (\<lambda>ch. ch \<noteq> CHR ''?'') u = zs @ ''//''" by simp
    then have "suffix ''//'' (takeWhile (\<lambda>ch. ch \<noteq> CHR ''?'') u)"
      by (simp add: suffix_def)
    with assms show False by contradiction
  qed
qed

lemma normalize_clean_fixed:
  assumes "CHR ''?'' \<notin> set r" and "\<not> suffix ''/'' r"
    and "sublist ''/in/'' r \<or> (\<not> suffix ''linkedin.com'' r \<and> \<not> sublist ''linkedin.com/'' r)"
  shows "normalizeLinkedInUrl r = r"
  using assms(3) str_replace_absent [of "''linkedin.com/''" r "''linkedin.com/in/''"]
  by (auto simp: normalizeLinkedInUrl_cases [of r] without_query_and_slash_fixed [OF assms(1,2)])

lemma normalize_idempotent_without_double_slash:
  assumes "\<not> suffix ''//'' (takeWhile (\<lambda>ch. ch \<noteq> CHR ''?'') u)"
  shows "normalizeLinkedInUrl (normalizeLinkedInUrl u) = normalizeLinkedInUrl u"
proof -
  let ?s = "without_query_and_slash u"
  have no_q: "CHR ''?'' \<notin> set ?s" by (rule without_query_chars)
  have no_sl: "\<not> suffix ''/'' ?s" using assms by (rule without_query_and_slash_no_slash)
  consider (empty) "u = []"
    | (foreign) "u \<noteq> []" "\<not> sublist ''linkedin.com'' u"
    | (profile) "u \<noteq> []" "sublist ''linkedin.com'' u" "sublist ''/in/'' ?s"
    | (host) "u \<noteq> []" "sublist ''linkedin.com'' u" "\<not> sublist ''/in/'' ?s"
        "suffix ''linkedin.com'' ?s"
    | (other) "u \<noteq> []" "sublist ''linkedin.com'' u" "\<not> sublist ''/in/'' ?s"
        "\<not> suffix ''linkedin.com'' ?s" "\<not> sublist ''linkedin.com/'' ?s"
    | (fixup) "u \<noteq> []" "sublist ''linkedin.com'' u" "\<not> sublist ''/in/'' ?s"
        "\<not> suffix ''linkedin.com'' ?s" "sublist ''linkedin.com/'' ?s"
    by blast
  then show ?thesis
  proof cases
    case empty
    then show ?thesis by (simp add: normalizeLinkedInUrl_def)
  next
    case foreign
    then have "normalizeLinkedInUrl u = u" by (simp add: normalizeLinkedInUrl_cases)
    then show ?thesis by simp
  next
    case profile
    then have "normalizeLinkedInUrl u = ?s" by (simp add: normalizeLinkedInUrl_cases)
    moreover have "normalizeLinkedInUrl ?s = ?s"
      using no_q no_sl profile(3) by (intro normalize_clean_fixed) simp_all
    ultimately show ?thesis by simp
  next
    case host
    then have "normalizeLinkedInUrl u = u" by (simp add: normalizeLinkedInUrl_cases)
    then show ?thesis by simp
  next
    case other
    then have "normalizeLinkedInUrl u = ?s"
      by (simp add: normalizeLinkedInUrl_cases str_replace_absent)
    moreover have "normalizeLinkedInUrl ?s = ?s"
      using no_q no_sl other(4,5) by (intro normalize_clean_fixed) simp_all
    ultimately show ?thesis by simp
  next
    case fixup
    let ?r = "str_replace ?s ''linkedin.com/'' ''linkedin.com/in/''"
    from fixup have nu: "normalizeLinkedInUrl u = ?r" by (simp add: normalizeLinkedInUrl_cases)
    from str_replace_present [OF fixup(5), of "''linkedin.com/in/''"]
    obtain pre post where s: "?s = pre @ ''linkedin.com/'' @ post"
      and r: "?r = pre @ ''linkedin.com/in/'' @ post"
      by blast
    have "CHR ''?'' \<notin> set ?r"
      unfolding r using no_q [unfolded s] by simp
    moreover have "\<not> suffix ''/'' ?r"
      unfolding r using no_sl [unfolded s] by (simp add: suffix_slash)
    moreover have "sublist ''/in/'' ?r"
    proof -
      have "?r = (pre @ ''linkedin.com'') @ ''/in/'' @ post" unfolding r by simp
      then show ?thesis unfolding sublist_def by blast
    qed
    ultimately have "normalizeLinkedInUrl ?r = ?r"
      by (intro normalize_clean_fixed) simp_all
    with nu show ?thesis by simp
  qed
qed

section \<open>Facts about the calls of a run\<close>

lemma emit_simps [simp]:
  "trace (emit ev w) = trace w @ [ev]"
  "visits (emit ev w) = visits w"
  "constructs (emit ev w) = constructs w"
  "gets (emit ev w) = gets w"
  "reads (emit ev w) = reads w"
  "updates (emit ev w) = updates w"
  by (simp_all add: emit_def)

lemma number_toString_default: "number_toString 0.9 = ''0.9''"
  by (simp add: number_toString_def nat_toString.simps digit_char_def)

lemma update_attempts_visits:
  "visits (snd (update_attempts e c rowNumber st conf attempt w)) = visits w"
proof (induction e c rowNumber st conf attempt w rule: update_attempts.induct)
  case (1 e c rowNumber st conf attempt w)
  show ?case
    using "1.IH"
    by (subst update_attempts.simps) (auto simp: Let_def split: option.splits)
qed

lemma update_attempts_trace:
  "\<exists>seg. trace (snd (update_attempts e c rowNumber st conf attempt w)) = trace w @ seg
     \<and> set seg \<subseteq> insert (Values_Update (spreadsheetId c) (status_range (sheetName c) rowNumber)
                            [[st, number_toString conf]]) (range Set_Timeout)
     \<and> (attempt \<le> maxRetries c \<longrightarrow>
          Values_Update (spreadsheetId c) (status_range (sheetName c) rowNumber)
            [[st, number_toString conf]] \<in> set seg)"
proof (induction e c rowNumber st conf attempt w rule: update_attempts.induct)
  case (1 e c rowNumber st conf attempt w)
  let ?U = "Values_Update (spreadsheetId c) (status_range (sheetName c) rowNumber)
              [[st, number_toString conf]]"
  let ?w1 = "emit ?U (w\<lparr>updates := Suc (updates w)\<rparr>)"
  show ?case
  proof (cases "attempt \<le> maxRetries c")
    case False
    then show ?thesis by (subst update_attempts.simps) simp
  next
    case le: True
    show ?thesis
    proof (cases "values_update_at e (updates w)")
      case None
      with le show ?thesis by (subst update_attempts.simps) (simp add: Let_def)
    next
      case (Some err)
      show ?thesis
      proof (cases "attempt < maxRetries c")
        case False
        with le Some show ?thesis by (subst update_attempts.simps) (simp add: Let_def)
      next
        case lt: True
        from "1.IH" [OF le refl Some lt]
        obtain seg where seg:
          "trace (snd (update_attempts e c rowNumber st conf (Suc attempt)
                    (emit (Set_Timeout (attempt * 1000)) ?w1)))
             = trace (emit (Set_Timeout (attempt * 1000)) ?w1) @ seg"
          "set seg \<subseteq> insert ?U (range Set_Timeout)"
          by blast
        have "trace (snd (update_attempts e c rowNumber st conf attempt w))
                = trace w @ (?U # Set_Timeout (attempt * 1000) # seg)"
          using le Some lt seg(1) by (subst update_attempts.simps) (simp add: Let_def)
        moreover have "set (?U # Set_Timeout (attempt * 1000) # seg)
                         \<subseteq> insert ?U (range Set_Timeout)"
          using seg(2) by auto
        ultimately show ?thesis by (metis list.set_intros(1))
      qed
    qed
  qed
qed


lemma updateProfileStatus_visits:
  "visits (snd (snd (updateProfileStatus e c rowNumber st conf_arg w))) = visits w"
  by (simp add: updateProfileStatus_def ensure_initialized_def client_init_def Let_def
      case_prod_beta update_attempts_visits split: option.splits)

lemma updateProfileStatus_trace:
  "\<exists>seg. trace (snd (snd (updateProfileStatus e c rowNumber st None w))) = trace w @ seg
     \<and> set seg \<subseteq> {Spreadsheets_Get (spreadsheetId c),
                    Values_Update (spreadsheetId c) (status_range (sheetName c) rowNumber)
                      [[st, ''0.9'']]} \<union> range Set_Timeout
     \<and> ((initialized c \<or> sheets_get_at e (gets w) = None) \<and> 1 \<le> maxRetries c \<longrightarrow>
          Values_Update (spreadsheetId c) (status_range (sheetName c) rowNumber) [[st, ''0.9'']]
            \<in> set seg)"
proof -
  let ?U = "Values_Update (spreadsheetId c) (status_range (sheetName c) rowNumber) [[st, ''0.9'']]"
  let ?G = "Spreadsheets_Get (spreadsheetId c)"
  have attempts: "\<exists>seg. trace (snd (update_attempts e c' rowNumber st 0.9 1 w')) = trace w' @ seg
       \<and> set seg \<subseteq> insert ?U (range Set_Timeout)
       \<and> (1 \<le> maxRetries c \<longrightarrow> ?U \<in> set seg)"
    if "spreadsheetId c' = spreadsheetId c" "sheetName c' = sheetName c"
      "maxRetries c' = maxRetries c" for c' w'
    using update_attempts_trace [of e c' rowNumber st "0.9" 1 w'] that
    by (simp add: number_toString_default)
  show ?thesis
  proof (cases "initialized c")
    case True
    from attempts [of c w] obtain seg where seg:
      "trace (snd (update_attempts e c rowNumber st 0.9 1 w)) = trace w @ seg"
      "set seg \<subseteq> insert ?U (range Set_Timeout)" "1 \<le> maxRetries c \<longrightarrow> ?U \<in> set seg"
      by auto
    from True seg(1)
    have "trace (snd (snd (updateProfileStatus e c rowNumber st None w))) = trace w @ seg"
      by (simp add: updateProfileStatus_def ensure_initialized_def Let_def case_prod_beta)
    moreover have "set seg \<subseteq> {?G, ?U} \<union> range Set_Timeout"
      using seg(2) by auto
    ultimately show ?thesis using seg(3) by blast
  next
    case uninit: False
    let ?w1 = "emit ?G (w\<lparr>gets := Suc (gets w)\<rparr>)"
    show ?thesis
    proof (cases "sheets_get_at e (gets w)")
      case (Some err)
      with uninit have "trace (snd (snd (updateProfileStatus e c rowNumber st None w)))
          = trace w @ [?G]"
        by (simp add: updateProfileStatus_def ensure_initialized_def client_init_def Let_def)
      moreover have "set [?G] \<subseteq> {?G, ?U} \<union> range Set_Timeout" by simp
      ultimately show ?thesis using uninit Some by (metis option.distinct(1))
    next
      case None
      from attempts [of "c\<lparr>initialized := True\<rparr>" ?w1] obtain seg where seg:
        "trace (snd (update_attempts e (c\<lparr>initialized := True\<rparr>) rowNumber st 0.9 1 ?w1))
           = trace ?w1 @ seg"
        "set seg \<subseteq> insert ?U (range Set_Timeout)" "1 \<le> maxRetries c \<longrightarrow> ?U \<in> set seg"
        by auto
      from uninit None seg(1)
      have "trace (snd (snd (updateProfileStatus e c rowNumber st None w)))
          = trace w @ (?G # seg)"
        by (simp add: updateProfileStatus_def ensure_initialized_def client_init_def Let_def
            case_prod_beta)
      moreover have "set (?G # seg) \<subseteq> {?G, ?U} \<union> range Set_Timeout"
        using seg(2) by auto
      moreover have "1 \<le> maxRetries c \<longrightarrow> ?U \<in> set (?G # seg)"
        using seg(3) by simp
      ultimately show ?thesis by blast
    qed
  qed
qed

lemma try_update_visits: "visits (snd (try_update e sid sn profile st w)) = visits w"
  by (simp add: try_update_def new_GoogleSheetsClient_def Let_def case_prod_beta
      updateProfileStatus_visits split: option.splits)


lemma try_update_trace:
  "\<exists>seg. trace (snd (try_update e sid sn profile st w)) = trace w @ Initialize_Client # seg
     \<and> set seg \<subseteq> {Spreadsheets_Get sid,
                    Values_Update sid (status_range sn (row profile)) [[status_value st, ''0.9'']]}
                   \<union> range Set_Timeout
     \<and> (construct_at e (constructs w) = None \<and> sheets_get_at e (gets w) = None \<longrightarrow>
          Values_Update sid (status_range sn (row profile)) [[status_value st, ''0.9'']]
            \<in> set seg)"
proof (cases "construct_at e (constructs w)")
  case (Some err)
  then have "trace (snd (try_update e sid sn profile st w)) = trace w @ Initialize_Client # []"
    by (simp add: try_update_def new_GoogleSheetsClient_def Let_def)
  with Some show ?thesis by (metis empty_set empty_subsetI option.distinct(1))
next
  case None
  let ?c = "\<lparr>spreadsheetId = sid, sheetName = sn, initialized = False, maxRetries = 3\<rparr>"
  let ?w1 = "emit Initialize_Client (w\<lparr>constructs := Suc (constructs w)\<rparr>)"
  let ?U = "Values_Update sid (status_range sn (row profile)) [[status_value st, ''0.9'']]"
  from updateProfileStatus_trace [of e ?c "row profile" "status_value st" ?w1]
  obtain seg where seg:
    "trace (snd (snd (updateProfileStatus e ?c (row profile) (status_value st) None ?w1)))
       = trace ?w1 @ seg"
    "set seg \<subseteq> {Spreadsheets_Get sid, ?U} \<union> range Set_Timeout"
    "sheets_get_at e (gets w) = None \<longrightarrow> ?U \<in> set seg"
    by auto
  from None seg(1)
  have "trace (snd (try_update e sid sn profile st w)) = trace w @ Initialize_Client # seg"
    by (simp add: try_update_def new_GoogleSheetsClient_def Let_def case_prod_beta)
  with seg(2,3) show ?thesis by (intro exI [of _ seg]) simp
qed

lemma processProfile_world:
  "snd (processProfile e profile w) = emit (Page_Goto (url profile)) (w\<lparr>visits := Suc (visits w)\<rparr>)"
  by (simp add: processProfile_def Let_def split: option.splits sum.splits)

lemma processProfile_succeeds:
  "processing_succeeds e (visits w) \<Longrightarrow>
   \<exists>st. fst (processProfile e profile w) = Inr (profile\<lparr>status := Some st\<rparr>)"
  by (auto simp: processing_succeeds_def processProfile_def determineConnectionStatus_def Let_def
      split: sum.splits)

lemma processProfile_fails:
  "\<not> processing_succeeds e (visits w) \<Longrightarrow> \<exists>err. fst (processProfile e profile w) = Inl err"
  by (auto simp: processing_succeeds_def processProfile_def determineConnectionStatus_def Let_def
      split: sum.splits option.splits)

lemma update_failed_trace:
  "\<exists>msgs. trace (update_failed profile st err w) = trace w @ map Console msgs"
proof (cases "str_includes (message err) ''Login Required''
              \<or> str_includes (message err) ''insufficient permission''")
  case True
  then have "trace (update_failed profile st err w)
      = trace w @ map Console [Sheet_Not_Editable, Would_Update_Row (row profile) st]"
    by (simp add: update_failed_def Let_def)
  then show ?thesis by blast
next
  case False
  then have "trace (update_failed profile st err w)
      = trace w @ map Console [Error_Updating_Sheet (message err)]"
    by (simp add: update_failed_def Let_def)
  then show ?thesis by blast
qed

lemma update_failed_visits: "visits (update_failed profile st err w) = visits w"
  by (simp add: update_failed_def Let_def)

lemma main_iteration_visits:
  "visits (snd (main_iteration e sid sn profile results w)) = Suc (visits w)"
proof (cases "processProfile e profile w")
  case (Pair r w1)
  then have w1: "w1 = emit (Page_Goto (url profile)) (w\<lparr>visits := Suc (visits w)\<rparr>)"
    using processProfile_world [of e profile w] by simp
  show ?thesis
  proof (cases r)
    case (Inl err)
    with Pair w1 show ?thesis by (simp add: main_iteration_def)
  next
    case (Inr profile1)
    with Pair w1 show ?thesis
      by (simp add: main_iteration_def case_prod_beta try_update_visits update_failed_visits
          split: option.splits sum.splits)
  qed
qed


lemma turn_event_update:
  "turn_event sid sn profile
     (Values_Update sid (status_range sn (row profile)) [[status_value st, ''0.9'']])"
  by (cases st) simp_all

lemma main_iteration_trace:
  "\<exists>seg. trace (snd (main_iteration e sid sn profile results w))
            = trace w @ Page_Goto (url profile) # seg
     \<and> (\<forall>ev\<in>set seg. turn_event sid sn profile ev)
     \<and> last seg = Set_Timeout 3000
     \<and> (if processing_succeeds e (visits w)
        then \<exists>st. fst (main_iteration e sid sn profile results w)
                    = results @ [profile\<lparr>status := Some st\<rparr>]
               \<and> length (filter (\<lambda>ev. ev = Initialize_Client) seg) = 1
               \<and> (construct_at e (constructs w) = None \<and> sheets_get_at e (gets w) = None \<longrightarrow>
                    Values_Update sid (status_range sn (row profile))
                      [[status_value st, ''0.9'']] \<in> set seg)
        else fst (main_iteration e sid sn profile results w) = results
             \<and> seg = [Console (Error_Processing (url profile)), Set_Timeout 3000])"
proof -
  let ?w1 = "emit (Page_Goto (url profile)) (w\<lparr>visits := Suc (visits w)\<rparr>)"
  have w1: "snd (processProfile e profile w) = ?w1"
    by (rule processProfile_world)
  show ?thesis
  proof (cases "processing_succeeds e (visits w)")
    case False
    then obtain err where "fst (processProfile e profile w) = Inl err"
      using processProfile_fails by blast
    with w1 have pp: "processProfile e profile w = (Inl err, ?w1)"
      by (metis prod.collapse)
    let ?seg = "[Console (Error_Processing (url profile)), Set_Timeout 3000]"
    have "main_iteration e sid sn profile results w
        = (results, emit (Set_Timeout 3000) (emit (Console (Error_Processing (url profile))) ?w1))"
      by (simp add: main_iteration_def pp)
    then have "trace (snd (main_iteration e sid sn profile results w))
          = trace w @ Page_Goto (url profile) # ?seg"
      and "fst (main_iteration e sid sn profile results w) = results"
      by simp_all
    moreover have "\<forall>ev\<in>set ?seg. turn_event sid sn profile ev" by simp
    ultimately show ?thesis using False by (intro exI [of _ ?seg]) simp
  next
    case True
    then obtain st where "fst (processProfile e profile w) = Inr (profile\<lparr>status := Some st\<rparr>)"
      using processProfile_succeeds by blast
    with w1 have pp: "processProfile e profile w = (Inr (profile\<lparr>status := Some st\<rparr>), ?w1)"
      by (metis prod.collapse)
    let ?p1 = "profile\<lparr>status := Some st\<rparr>"
    let ?U = "Values_Update sid (status_range sn (row profile)) [[status_value st, ''0.9'']]"
    from try_update_trace [of e sid sn ?p1 st ?w1]
    obtain seg1 where seg1:
      "trace (snd (try_update e sid sn ?p1 st ?w1)) = trace ?w1 @ Initialize_Client # seg1"
      "set seg1 \<subseteq> {Spreadsheets_Get sid, ?U} \<union> range Set_Timeout"
      "construct_at e (constructs w) = None \<and> sheets_get_at e (gets w) = None \<longrightarrow> ?U \<in> set seg1"
      by auto
    have seg1_ok: "\<forall>ev\<in>set seg1. turn_event sid sn profile ev"
      using seg1(2) turn_event_update [of sid sn profile st] by auto
    obtain msgs where tr:
      "trace (snd (main_iteration e sid sn profile results w))
         = trace w @ Page_Goto (url profile)
             # (Initialize_Client # seg1 @ map Console msgs @ [Set_Timeout 3000])"
    proof (cases "try_update e sid sn ?p1 st ?w1")
      case (Pair r w2)
      with seg1(1) have w2: "trace w2 = trace ?w1 @ Initialize_Client # seg1"
        by simp
      show ?thesis
      proof (cases r)
        case (Inl err)
        obtain msgs where "trace (update_failed ?p1 st err w2) = trace w2 @ map Console msgs"
          using update_failed_trace by blast
        then have "trace (snd (main_iteration e sid sn profile results w))
           = trace w @ Page_Goto (url profile)
               # (Initialize_Client # seg1 @ map Console msgs @ [Set_Timeout 3000])"
          using w2 by (simp add: main_iteration_def pp Pair Inl)
        then show ?thesis by (rule that)
      next
        case (Inr u)
        have "trace (snd (main_iteration e sid sn profile results w))
           = trace w @ Page_Goto (url profile)
               # (Initialize_Client # seg1 @ map Console [] @ [Set_Timeout 3000])"
          using w2 by (simp add: main_iteration_def pp Pair Inr)
        then show ?thesis by (rule that)
      qed
    qed
    let ?seg = "Initialize_Client # seg1 @ map Console msgs @ [Set_Timeout 3000]"
    have res: "fst (main_iteration e sid sn profile results w) = results @ [?p1]"
      by (simp add: main_iteration_def pp case_prod_beta)
    have evs: "\<forall>ev\<in>set ?seg. turn_event sid sn profile ev"
      using seg1_ok by auto
    have "filter (\<lambda>ev. ev = Initialize_Client) seg1 = []"
      using seg1(2) by (auto simp: filter_empty_conv)
    moreover have "filter (\<lambda>ev. ev = Initialize_Client) (map Console msgs) = []"
      by (simp add: filter_empty_conv)
    ultimately have ini: "length (filter (\<lambda>ev. ev = Initialize_Client) ?seg) = 1"
      by simp
    have upd: "construct_at e (constructs w) = None \<and> sheets_get_at e (gets w) = None
        \<longrightarrow> ?U \<in> set ?seg"
      using seg1(3) by simp
    have lst: "last ?seg = Set_Timeout 3000" by simp
    show ?thesis
    proof (intro exI [of _ ?seg] conjI)
      show "trace (snd (main_iteration e sid sn profile results w))
              = trace w @ Page_Goto (url profile) # ?seg"
        by (rule tr)
      show "\<forall>ev\<in>set ?seg. turn_event sid sn profile ev"
        by (rule evs)
      show "last ?seg = Set_Timeout 3000"
        by (rule lst)
      show "if processing_succeeds e (visits w)
        then \<exists>st. fst (main_iteration e sid sn profile results w)
                    = results @ [profile\<lparr>status := Some st\<rparr>]
               \<and> length (filter (\<lambda>ev. ev = Initialize_Client) ?seg) = 1
               \<and> (construct_at e (constructs w) = None \<and> sheets_get_at e (gets w) = None \<longrightarrow>
                    Values_Update sid (status_range sn (row profile))
                      [[status_value st, ''0.9'']] \<in> set ?seg)
        else fst (main_iteration e sid sn profile results w) = results
             \<and> ?seg = [Console (Error_Processing (url profile)), Set_Timeout 3000]"
        unfolding if_P [OF True]
        by (intro exI [of _ st] conjI) (rule res ini upd)+
    qed
  qed
qed

lemma main_loop_events:
  "\<exists>seg. trace (snd (main_loop e sid sn profiles results w)) = trace w @ seg
     \<and> (\<forall>ev\<in>set seg. \<exists>p\<in>set profiles. ev = Page_Goto (url p) \<or> turn_event sid sn p ev)"
proof (induction profiles arbitrary: results w)
  case Nil
  show ?case by simp
next
  case (Cons profile profiles)
  obtain results1 w1 where it: "main_iteration e sid sn profile results w = (results1, w1)"
    by (cases "main_iteration e sid sn profile results w")
  from main_iteration_trace [of e sid sn profile results w] it
  obtain seg where seg: "trace w1 = trace w @ Page_Goto (url profile) # seg"
    and evs: "\<forall>ev\<in>set seg. turn_event sid sn profile ev"
    by fastforce
  from Cons.IH [of results1 w1] obtain seg' where seg':
    "trace (snd (main_loop e sid sn profiles results1 w1)) = trace w1 @ seg'"
    "\<forall>ev\<in>set seg'. \<exists>p\<in>set profiles. ev = Page_Goto (url p) \<or> turn_event sid sn p ev"
    by blast
  have "trace (snd (main_loop e sid sn (profile # profiles) results w))
      = trace w @ (Page_Goto (url profile) # seg @ seg')"
    using it seg seg'(1) by simp
  moreover have "\<forall>ev\<in>set (Page_Goto (url profile) # seg @ seg').
      \<exists>p\<in>set (profile # profiles). ev = Page_Goto (url p) \<or> turn_event sid sn p ev"
    using evs seg'(2) by auto
  ultimately show ?case by blast
qed

lemma file_writes_append: "file_writes (xs @ ys) = file_writes xs @ file_writes ys"
  by (induction xs rule: file_writes.induct) simp_all

lemma file_writes_none:
  "\<forall>ev\<in>set seg. \<exists>p\<in>P. ev = Page_Goto (url p) \<or> turn_event sid sn p ev \<Longrightarrow> file_writes seg = []"
  by (induction seg rule: file_writes.induct) auto

lemma main_loop_results:
  "\<forall>r\<in>set (fst (main_loop e sid sn profiles results w)).
     r \<in> set results \<or> (\<exists>p\<in>set profiles. \<exists>st. r = p\<lparr>status := Some st\<rparr>)"
proof (induction profiles arbitrary: results w)
  case Nil
  show ?case by simp
next
  case (Cons profile profiles)
  obtain results1 w1 where it: "main_iteration e sid sn profile results w = (results1, w1)"
    by (cases "main_iteration e sid sn profile results w")
  from main_iteration_trace [of e sid sn profile results w] it
  have r1: "results1 = results \<or> (\<exists>st. results1 = results @ [profile\<lparr>status := Some st\<rparr>])"
    by (fastforce split: if_splits)
  have eq: "main_loop e sid sn (profile # profiles) results w
      = main_loop e sid sn profiles results1 w1"
    using it by simp
  show ?case
    unfolding eq
  proof
    fix r
    assume "r \<in> set (fst (main_loop e sid sn profiles results1 w1))"
    with Cons.IH [of results1 w1]
    have "r \<in> set results1 \<or> (\<exists>p\<in>set profiles. \<exists>st. r = p\<lparr>status := Some st\<rparr>)"
      by blast
    with r1 show "r \<in> set results
        \<or> (\<exists>p\<in>set (profile # profiles). \<exists>st. r = p\<lparr>status := Some st\<rparr>)"
      by auto
  qed
qed

lemma turn_event_confidence:
  "turn_event sid sn p (Values_Update sid' rng vals) \<Longrightarrow> \<exists>s. vals = [[status_value s, ''0.9'']]"
  by (simp only: turn_event.simps) blast

lemma main_iteration_failed:
  assumes "\<not> processing_succeeds e (visits w)"
  shows "main_iteration e sid sn profile rs w =
     (rs, w\<lparr>visits := Suc (visits w),
            trace := trace w @ [Page_Goto (url profile),
                                Console (Error_Processing (url profile)),
                                Set_Timeout 3000]\<rparr>)"
proof -
  obtain err where "fst (processProfile e profile w) = Inl err"
    using assms processProfile_fails by blast
  then have "processProfile e profile w
      = (Inl err, emit (Page_Goto (url profile)) (w\<lparr>visits := Suc (visits w)\<rparr>))"
    using processProfile_world [of e profile w] by (metis prod.collapse)
  then show ?thesis by (simp add: main_iteration_def emit_def)
qed

lemma processProfile_classified:
  assumes "processing_succeeds e (visits w)" and "evaluation_at e (visits w) = Inr ev"
  shows "processProfile e profile w =
     (Inr (profile\<lparr>status := Some (result_status (decide_status ev))\<rparr>),
      w\<lparr>visits := Suc (visits w), trace := trace w @ [Page_Goto (url profile)]\<rparr>)"
  using assms
  by (simp add: processing_succeeds_def processProfile_def determineConnectionStatus_def
      emit_def Let_def)

lemma update_failed_messages:
  "update_failed profile st err w
     = w\<lparr>trace := trace w @ map Console (handler_messages profile st err)\<rparr>"
  by (simp add: update_failed_def handler_messages_def emit_def Let_def)

lemma try_update_construct_fails:
  assumes "construct_at e (constructs w) = Some err"
  shows "try_update e sid sn profile st w =
     (Inl err, w\<lparr>constructs := Suc (constructs w), trace := trace w @ [Initialize_Client]\<rparr>)"
  using assms by (simp add: try_update_def new_GoogleSheetsClient_def emit_def Let_def)

lemma try_update_init_fails:
  assumes "construct_at e (constructs w) = None" and "sheets_get_at e (gets w) = Some err"
  shows "try_update e sid sn profile st w =
     (Inl err, w\<lparr>constructs := Suc (constructs w), gets := Suc (gets w),
                 trace := trace w @ [Initialize_Client, Spreadsheets_Get sid]\<rparr>)"
  using assms
  by (simp add: try_update_def new_GoogleSheetsClient_def updateProfileStatus_def
      ensure_initialized_def client_init_def emit_def Let_def)

lemma try_update_first_write:
  assumes "construct_at e (constructs w) = None" and "sheets_get_at e (gets w) = None"
    and "values_update_at e (updates w) = None"
  shows "try_update e sid sn profile st w =
     (Inr (), w\<lparr>constructs := Suc (constructs w), gets := Suc (gets w),
                 updates := Suc (updates w),
                 trace := trace w @ [Initialize_Client, Spreadsheets_Get sid,
                   Values_Update sid (status_range sn (row profile))
                     [[status_value st, ''0.9'']]]\<rparr>)"
  using assms
  by (simp add: try_update_def new_GoogleSheetsClient_def updateProfileStatus_def
      ensure_initialized_def client_init_def update_attempts.simps emit_def Let_def
      number_toString_default)

lemma try_update_second_write:
  assumes "construct_at e (constructs w) = None" and "sheets_get_at e (gets w) = None"
    and "values_update_at e (updates w) = Some err1"
    and "values_update_at e (Suc (updates w)) = None"
  shows "try_update e sid sn profile st w =
     (Inr (), w\<lparr>constructs := Suc (constructs w), gets := Suc (gets w),
                 updates := Suc (Suc (updates w)),
                 trace := trace w @ [Initialize_Client, Spreadsheets_Get sid,
                   Values_Update sid (status_range sn (row profile))
                     [[status_value st, ''0.9'']],
                   Set_Timeout 1000,
                   Values_Update sid (status_range sn (row profile))
                     [[status_value st, ''0.9'']]]\<rparr>)"
  using assms
  by (simp add: try_update_def new_GoogleSheetsClient_def updateProfileStatus_def
      ensure_initialized_def client_init_def update_attempts.simps emit_def Let_def
      number_toString_default)

lemma try_update_third_write:
  assumes "construct_at e (constructs w) = None" and "sheets_get_at e (gets w) = None"
    and "values_update_at e (updates w) = Some err1"
    and "values_update_at e (Suc (updates w)) = Some err2"
  shows "try_update e sid sn profile st w =
     ((case values_update_at e (Suc (Suc (updates w))) of None \<Rightarrow> Inr () | Some err3 \<Rightarrow> Inl err3),
      w\<lparr>constructs := Suc (constructs w), gets := Suc (gets w),
        updates := Suc (Suc (Suc (updates w))),
        trace := trace w @ [Initialize_Client, Spreadsheets_Get sid,
          Values_Update sid (status_range sn (row profile)) [[status_value st, ''0.9'']],
          Set_Timeout 1000,
          Values_Update sid (status_range sn (row profile)) [[status_value st, ''0.9'']],
          Set_Timeout 2000,
          Values_Update sid (status_range sn (row profile)) [[status_value st, ''0.9'']]]\<rparr>)"
  using assms
  by (simp add: try_update_def new_GoogleSheetsClient_def updateProfileStatus_def
      ensure_initialized_def client_init_def update_attempts.simps emit_def Let_def
      number_toString_default split: option.splits)

lemma main_iteration_processed:
  assumes "processing_succeeds e (visits w)" and "evaluation_at e (visits w) = Inr ev"
  shows "main_iteration e sid sn profile rs w =
     (rs @ [profile\<lparr>status := Some (result_status (decide_status ev))\<rparr>],
      (case try_update e sid sn (profile\<lparr>status := Some (result_status (decide_status ev))\<rparr>)
              (result_status (decide_status ev))
              (w\<lparr>visits := Suc (visits w), trace := trace w @ [Page_Goto (url profile)]\<rparr>) of
         (r, w2) \<Rightarrow>
           w2\<lparr>trace := trace w2
                  @ (case r of
                       Inl err \<Rightarrow> map Console
                         (handler_messages profile (result_status (decide_status ev)) err)
                     | Inr u \<Rightarrow> [])
                  @ [Set_Timeout 3000]\<rparr>))"
  by (simp add: main_iteration_def processProfile_classified [OF assms] update_failed_messages
      handler_messages_def emit_def split: prod.splits sum.splits)

lemma turn_cases:
  assumes "processing_succeeds e (visits w)" and "evaluation_at e (visits w) = Inr ev"
  shows "fst (main_iteration e sid sn profile rs w)
           = rs @ [profile\<lparr>status := Some (result_status (decide_status ev))\<rparr>]"
    and "construct_at e (constructs w) = Some err \<Longrightarrow>
         trace (snd (main_iteration e sid sn profile rs w))
           = trace w @ [Page_Goto (url profile), Initialize_Client]
             @ map Console (handler_messages profile (result_status (decide_status ev)) err)
             @ [Set_Timeout 3000]"
    and "construct_at e (constructs w) = None \<Longrightarrow> sheets_get_at e (gets w) = Some err \<Longrightarrow>
         trace (snd (main_iteration e sid sn profile rs w))
           = trace w @ [Page_Goto (url profile), Initialize_Client, Spreadsheets_Get sid]
             @ map Console (handler_messages profile (result_status (decide_status ev)) err)
             @ [Set_Timeout 3000]"
    and "construct_at e (constructs w) = None \<Longrightarrow> sheets_get_at e (gets w) = None \<Longrightarrow>
         values_update_at e (updates w) = None \<Longrightarrow>
         trace (snd (main_iteration e sid sn profile rs w))
           = trace w @ [Page_Goto (url profile), Initialize_Client, Spreadsheets_Get sid,
               Values_Update sid (status_range sn (row profile))
                 [[status_value (result_status (decide_status ev)), ''0.9'']],
               Set_Timeout 3000]"
    and "construct_at e (constructs w) = None \<Longrightarrow> sheets_get_at e (gets w) = None \<Longrightarrow>
         values_update_at e (updates w) = Some err1 \<Longrightarrow>
         values_update_at e (Suc (updates w)) = None \<Longrightarrow>
         trace (snd (main_iteration e sid sn profile rs w))
           = trace w @ [Page_Goto (url profile), Initialize_Client, Spreadsheets_Get sid,
               Values_Update sid (status_range sn (row profile))
                 [[status_value (result_status (decide_status ev)), ''0.9'']],
               Set_Timeout 1000,
               Values_Update sid (status_range sn (row profile))
                 [[status_value (result_status (decide_status ev)), ''0.9'']],
               Set_Timeout 3000]"
    and "construct_at e (constructs w) = None \<Longrightarrow> sheets_get_at e (gets w) = None \<Longrightarrow>
         values_update_at e (updates w) = Some err1 \<Longrightarrow>
         values_update_at e (Suc (updates w)) = Some err2 \<Longrightarrow>
         values_update_at e (Suc (Suc (updates w))) = None \<Longrightarrow>
         trace (snd (main_iteration e sid sn profile rs w))
           = trace w @ [Page_Goto (url profile), Initialize_Client, Spreadsheets_Get sid,
               Values_Update sid (status_range sn (row profile))
                 [[status_value (result_status (decide_status ev)), ''0.9'']],
               Set_Timeout 1000,
               Values_Update sid (status_range sn (row profile))
                 [[status_value (result_status (decide_status ev)), ''0.9'']],
               Set_Timeout 2000,
               Values_Update sid (status_range sn (row profile))
                 [[status_value (result_status (decide_status ev)), ''0.9'']],
               Set_Timeout 3000]"
    and "construct_at e (constructs w) = None \<Longrightarrow> sheets_get_at e (gets w) = None \<Longrightarrow>
         values_update_at e (updates w) = Some err1 \<Longrightarrow>
         values_update_at e (Suc (updates w)) = Some err2 \<Longrightarrow>
         values_update_at e (Suc (Suc (updates w))) = Some err3 \<Longrightarrow>
         trace (snd (main_iteration e sid sn profile rs w))
           = trace w @ [Page_Goto (url profile), Initialize_Client, Spreadsheets_Get sid,
               Values_Update sid (status_range sn (row profile))
                 [[status_value (result_status (decide_status ev)), ''0.9'']],
               Set_Timeout 1000,
               Values_Update sid (status_range sn (row profile))
                 [[status_value (result_status (decide_status ev)), ''0.9'']],
               Set_Timeout 2000,
               Values_Update sid (status_range sn (row profile))
                 [[status_value (result_status (decide_status ev)), ''0.9'']]]
             @ map Console (handler_messages profile (result_status (decide_status ev)) err3)
             @ [Set_Timeout 3000]"
proof -
  note it = main_iteration_processed [OF assms, of sid sn profile rs]
  show "fst (main_iteration e sid sn profile rs w)
           = rs @ [profile\<lparr>status := Some (result_status (decide_status ev))\<rparr>]"
    by (simp add: it)
  show "construct_at e (constructs w) = Some err \<Longrightarrow>
         trace (snd (main_iteration e sid sn profile rs w))
           = trace w @ [Page_Goto (url profile), Initialize_Client]
             @ map Console (handler_messages profile (result_status (decide_status ev)) err)
             @ [Set_Timeout 3000]"
    by (simp add: it try_update_construct_fails)
  show "construct_at e (constructs w) = None \<Longrightarrow> sheets_get_at e (gets w) = Some err \<Longrightarrow>
         trace (snd (main_iteration e sid sn profile rs w))
           = trace w @ [Page_Goto (url profile), Initialize_Client, Spreadsheets_Get sid]
             @ map Console (handler_messages profile (result_status (decide_status ev)) err)
             @ [Set_Timeout 3000]"
    by (simp add: it try_update_init_fails)
  show "construct_at e (constructs w) = None \<Longrightarrow> sheets_get_at e (gets w) = None \<Longrightarrow>
         values_update_at e (updates w) = None \<Longrightarrow>
         trace (snd (main_iteration e sid sn profile rs w))
           = trace w @ [Page_Goto (url profile), Initialize_Client, Spreadsheets_Get sid,
               Values_Update sid (status_range sn (row profile))
                 [[status_value (result_status (decide_status ev)), ''0.9'']],
               Set_Timeout 3000]"
    by (simp add: it try_update_first_write)
  show "construct_at e (constructs w) = None \<Longrightarrow> sheets_get_at e (gets w) = None \<Longrightarrow>
         values_update_at e (updates w) = Some err1 \<Longrightarrow>
         values_update_at e (Suc (updates w)) = None \<Longrightarrow>
         trace (snd (main_iteration e sid sn profile rs w))
           = trace w @ [Page_Goto (url profile), Initialize_Client, Spreadsheets_Get sid,
               Values_Update sid (status_range sn (row profile))
                 [[status_value (result_status (decide_status ev)), ''0.9'']],
               Set_Timeout 1000,
               Values_Update sid (status_range sn (row profile))
                 [[status_value (result_status (decide_status ev)), ''0.9'']],
               Set_Timeout 3000]"
    by (simp add: it try_update_second_write)
  show "construct_at e (constructs w) = None \<Longrightarrow> sheets_get_at e (gets w) = None \<Longrightarrow>
         values_update_at e (updates w) = Some err1 \<Longrightarrow>
         values_update_at e (Suc (updates w)) = Some err2 \<Longrightarrow>
         values_update_at e (Suc (Suc (updates w))) = None \<Longrightarrow>
         trace (snd (main_iteration e sid sn profile rs w))
           = trace w @ [Page_Goto (url profile), Initialize_Client, Spreadsheets_Get sid,
               Values_Update sid (status_range sn (row profile))
                 [[status_value (result_status (decide_status ev)), ''0.9'']],
               Set_Timeout 1000,
               Values_Update sid (status_range sn (row profile))
                 [[status_value (result_status (decide_status ev)), ''0.9'']],
               Set_Timeout 2000,
               Values_Update sid (status_range sn (row profile))
                 [[status_value (result_status (decide_status ev)), ''0.9'']],
               Set_Timeout 3000]"
    by (simp add: it try_update_third_write)
  show "construct_at e (constructs w) = None \<Longrightarrow> sheets_get_at e (gets w) = None \<Longrightarrow>
         values_update_at e (updates w) = Some err1 \<Longrightarrow>
         values_update_at e (Suc (updates w)) = Some err2 \<Longrightarrow>
         values_update_at e (Suc (Suc (updates w))) = Some err3 \<Longrightarrow>
         trace (snd (main_iteration e sid sn profile rs w))
           = trace w @ [Page_Goto (url profile), Initialize_Client, Spreadsheets_Get sid,
               Values_Update sid (status_range sn (row profile))
                 [[status_value (result_status (decide_status ev)), ''0.9'']],
               Set_Timeout 1000,
               Values_Update sid (status_range sn (row profile))
                 [[status_value (result_status (decide_status ev)), ''0.9'']],
               Set_Timeout 2000,
               Values_Update sid (status_range sn (row profile))
                 [[status_value (result_status (decide_status ev)), ''0.9'']]]
             @ map Console (handler_messages profile (result_status (decide_status ev)) err3)
             @ [Set_Timeout 3000]"
    by (simp add: it try_update_third_write)
qed

lemma main_loop_append:
  "main_loop e sid sn (ps @ qs) results w =
     (case main_loop e sid sn ps results w of (r, w') \<Rightarrow> main_loop e sid sn qs r w')"
  by (induction ps arbitrary: results w) (simp_all split: prod.splits)

lemma main_loop_take_Suc:
  assumes "i < length profiles" and "main_loop e sid sn (take i profiles) results w = (ri, wi)"
  shows "main_loop e sid sn (take (Suc i) profiles) results w
           = main_iteration e sid sn (profiles ! i) ri wi"
  using assms
  by (simp add: take_Suc_conv_app_nth main_loop_append split: prod.splits)

lemma main_loop_visits:
  "visits (snd (main_loop e sid sn ps results w)) = visits w + length ps"
proof (induction ps arbitrary: results w)
  case Nil
  show ?case by simp
next
  case (Cons p ps)
  obtain r1 w1 where it: "main_iteration e sid sn p results w = (r1, w1)"
    by (cases "main_iteration e sid sn p results w")
  then have "visits w1 = Suc (visits w)"
    using main_iteration_visits [of e sid sn p results w] by simp
  with Cons.IH [of r1 w1] it show ?case by simp
qed

section \<open>Facts about the rows of the sheet\<close>

lemma row_profile_Some:
  "row_profile trim (index, r) = Some p \<longleftrightarrow>
     (\<exists>cell cells. r = cell # cells \<and> cell \<noteq> [] \<and> trim cell \<noteq> []
        \<and> p = \<lparr>url = normalizeLinkedInUrl cell, status = None, row = index + 2\<rparr>)"
  by (auto simp: row_profile_def split: list.splits)

lemma profiles_from_Cons:
  "map the (filter (\<lambda>profile. profile \<noteq> None) (map (row_profile trim) (enumerate n (r # rows))))
     = (case row_profile trim (n, r) of None \<Rightarrow> [] | Some p \<Rightarrow> [p])
       @ map the (filter (\<lambda>profile. profile \<noteq> None)
                    (map (row_profile trim) (enumerate (Suc n) rows)))"
  by (simp split: option.splits)

lemma profiles_from_rows:
  "\<forall>p\<in>set (map the (filter (\<lambda>profile. profile \<noteq> None)
                      (map (row_profile trim) (enumerate n rows)))).
     n + 2 \<le> row p \<and> row p < n + 2 + length rows \<and> status p = None
     \<and> (\<exists>cell cells. rows ! (row p - (n + 2)) = cell # cells \<and> cell \<noteq> [] \<and> trim cell \<noteq> []
          \<and> url p = normalizeLinkedInUrl cell)"
proof (induction rows arbitrary: n)
  case Nil
  show ?case by simp
next
  case (Cons r rows)
  show ?case
    unfolding profiles_from_Cons
  proof
    fix p
    assume "p \<in> set ((case row_profile trim (n, r) of None \<Rightarrow> [] | Some p \<Rightarrow> [p])
       @ map the (filter (\<lambda>profile. profile \<noteq> None)
                    (map (row_profile trim) (enumerate (Suc n) rows))))"
    then consider (head) "row_profile trim (n, r) = Some p"
      | (tail) "p \<in> set (map the (filter (\<lambda>profile. profile \<noteq> None)
                    (map (row_profile trim) (enumerate (Suc n) rows))))"
      by (auto split: option.splits)
    then show "n + 2 \<le> row p \<and> row p < n + 2 + length (r # rows) \<and> status p = None
     \<and> (\<exists>cell cells. (r # rows) ! (row p - (n + 2)) = cell # cells \<and> cell \<noteq> []
          \<and> trim cell \<noteq> [] \<and> url p = normalizeLinkedInUrl cell)"
    proof cases
      case head
      then show ?thesis by (auto simp: row_profile_Some)
    next
      case tail
      with Cons.IH [of "Suc n"]
      have ih: "Suc n + 2 \<le> row p" "row p < Suc n + 2 + length rows" "status p = None"
        "\<exists>cell cells. rows ! (row p - (Suc n + 2)) = cell # cells \<and> cell \<noteq> []
           \<and> trim cell \<noteq> [] \<and> url p = normalizeLinkedInUrl cell"
        by blast+
      from ih(1) have "row p - (n + 2) = Suc (row p - (Suc n + 2))" by simp
      then have "(r # rows) ! (row p - (n + 2)) = rows ! (row p - (Suc n + 2))" by simp
      with ih show ?thesis by simp
    qed
  qed
qed

lemma profiles_from_sorted:
  "sorted_wrt (<) (map row (map the (filter (\<lambda>profile. profile \<noteq> None)
                      (map (row_profile trim) (enumerate n rows)))))"
proof (induction rows arbitrary: n)
  case Nil
  show ?case by simp
next
  case (Cons r rows)
  have later: "\<forall>p\<in>set (map the (filter (\<lambda>profile. profile \<noteq> None)
                      (map (row_profile trim) (enumerate (Suc n) rows)))). n + 2 < row p"
    using profiles_from_rows [of trim "Suc n" rows] by auto
  show ?case
  proof (cases "row_profile trim (n, r)")
    case None
    with Cons.IH [of "Suc n"] show ?thesis
      unfolding profiles_from_Cons by simp
  next
    case (Some p)
    then have "row p = n + 2" by (auto simp: row_profile_Some)
    with Some later Cons.IH [of "Suc n"] show ?thesis
      unfolding profiles_from_Cons by (simp add: sorted_wrt_append)
  qed
qed

lemma profiles_from_complete:
  "i < length rows \<Longrightarrow> rows ! i = cell # cells \<Longrightarrow> cell \<noteq> [] \<Longrightarrow> trim cell \<noteq> [] \<Longrightarrow>
   \<lparr>url = normalizeLinkedInUrl cell, status = None, row = n + i + 2\<rparr>
     \<in> set (map the (filter (\<lambda>profile. profile \<noteq> None)
                      (map (row_profile trim) (enumerate n rows))))"
proof (induction rows arbitrary: n i)
  case Nil
  then show ?case by simp
next
  case (Cons r rows)
  show ?case
  proof (cases i)
    case 0
    with Cons.prems have "row_profile trim (n, r)
        = Some \<lparr>url = normalizeLinkedInUrl cell, status = None, row = n + i + 2\<rparr>"
      by (simp add: row_profile_Some)
    then show ?thesis unfolding profiles_from_Cons by simp
  next
    case (Suc j)
    with Cons.prems have "j < length rows" "rows ! j = cell # cells" by simp_all
    from Cons.IH [OF this Cons.prems(3,4), of "Suc n"] Suc
    show ?thesis unfolding profiles_from_Cons by simp
  qed
qed

lemma rows_profiles_rows:
  assumes "p \<in> set (rows_profiles trim rows)"
  shows "2 \<le> row p" and "row p - 2 < length rows" and "status p = None"
    and "\<exists>cell cells. rows ! (row p - 2) = cell # cells \<and> cell \<noteq> [] \<and> trim cell \<noteq> []
           \<and> url p = normalizeLinkedInUrl cell"
proof -
  from assms profiles_from_rows [of trim 0 rows]
  have *: "0 + 2 \<le> row p \<and> row p < 0 + 2 + length rows \<and> status p = None
     \<and> (\<exists>cell cells. rows ! (row p - (0 + 2)) = cell # cells \<and> cell \<noteq> [] \<and> trim cell \<noteq> []
          \<and> url p = normalizeLinkedInUrl cell)"
    unfolding rows_profiles_def by blast
  then have **: "2 \<le> row p \<and> row p < 2 + length rows \<and> status p = None
     \<and> (\<exists>cell cells. rows ! (row p - 2) = cell # cells \<and> cell \<noteq> [] \<and> trim cell \<noteq> []
          \<and> url p = normalizeLinkedInUrl cell)"
    by (simp only: add_0)
  from ** show "2 \<le> row p" by (rule conjunct1)
  from ** show "row p - 2 < length rows" by arith
  from ** show "status p = None" by blast
  from ** show "\<exists>cell cells. rows ! (row p - 2) = cell # cells \<and> cell \<noteq> [] \<and> trim cell \<noteq> []
           \<and> url p = normalizeLinkedInUrl cell"
    by blast
qed

lemma rows_profiles_sorted: "sorted_wrt (<) (map row (rows_profiles trim rows))"
  unfolding rows_profiles_def by (rule profiles_from_sorted)

lemma rows_profiles_complete:
  "i < length rows \<Longrightarrow> rows ! i = cell # cells \<Longrightarrow> cell \<noteq> [] \<Longrightarrow> trim cell \<noteq> [] \<Longrightarrow>
   \<lparr>url = normalizeLinkedInUrl cell, status = None, row = i + 2\<rparr> \<in> set (rows_profiles trim rows)"
  unfolding rows_profiles_def using profiles_from_complete [of i rows cell cells trim 0] by simp

lemma rows_profiles_Nil: "rows_profiles trim [] = []"
  by (simp add: rows_profiles_def)

lemma getProfiles_cases:
  assumes "getProfiles trim e c w = (Inr profiles, c1, w1)"
  shows "case values_get_at e (reads w) of
           Inl err \<Rightarrow> False
         | Inr None \<Rightarrow> profiles = []
         | Inr (Some rows) \<Rightarrow> profiles = rows_profiles trim rows"
proof -
  have rd: "reads (snd (snd (ensure_initialized e c w))) = reads w"
    by (simp add: ensure_initialized_def client_init_def Let_def split: option.splits)
  obtain r c0 w0 where ei: "ensure_initialized e c w = (r, c0, w0)"
    by (cases "ensure_initialized e c w")
  with rd have "reads w0 = reads w" by simp
  with assms ei show ?thesis
    by (auto simp: getProfiles_def Let_def rows_profiles_def
        split: sum.splits option.splits if_splits)
qed

lemma processProfile_keeps_row:
  "processProfile e profile w = (Inr profile1, w1) \<Longrightarrow>
   row profile1 = row profile \<and> url profile1 = url profile \<and> status profile1 \<noteq> None"
  by (auto simp: processProfile_def Let_def split: option.splits sum.splits if_splits)

section \<open>The classifier follows the precedence table\<close>

text \<open>
  C1: for every value of the page signals the classifier returns the status and the
  confidence of the four-rule table, the first matching rule winning: a pending marker or
  button gives PENDING with 0.95; else a connected marker, a message button without a
  connect button, or a degree text containing "1st" gives ACCEPTED with 0.95; else a connect
  button or a degree text containing "2nd" or "3rd" gives NOT_CONNECTED with 0.9; else
  UNKNOWN with 0.5. In particular a pending marker in the markup gives PENDING with 0.95
  whatever the other fields are. "Contains" is the occurrence of the text as a contiguous
  part (\<^const>\<open>sublist\<close>).
\<close>

theorem decide_status_precedence:
  "(result_status (decide_status ev), confidence (decide_status ev)) =
     (if isPendingInHtml ev \<or> hasPendingButton ev then (PENDING, 0.95)
      else if isConnectedInHtml ev \<or> (hasMessageButton ev \<and> \<not> hasConnectButton ev)
              \<or> sublist ''1st'' (connectionDegree ev) then (ACCEPTED, 0.95)
      else if hasConnectButton ev \<or> sublist ''2nd'' (connectionDegree ev)
              \<or> sublist ''3rd'' (connectionDegree ev) then (NOT_CONNECTED, 0.9)
      else (UNKNOWN, 0.5))
   \<and> (isPendingInHtml ev \<longrightarrow>
        result_status (decide_status ev) = PENDING \<and> confidence (decide_status ev) = 0.95)"
  by (simp add: decide_status_def Let_def str_includes_sublist)

theorem decide_status_precedence_witness:
  "isPendingInHtml \<lparr>hasConnectButton = True, hasPendingButton = False, hasMessageButton = True,
       connectionDegree = ''1st'', isPendingInHtml = True, isConnectedInHtml = True\<rparr>
   \<and> result_status (decide_status
        \<lparr>hasConnectButton = True, hasPendingButton = False, hasMessageButton = True,
         connectionDegree = ''1st'', isPendingInHtml = True, isConnectedInHtml = True\<rparr>) = PENDING
   \<and> confidence (decide_status
        \<lparr>hasConnectButton = True, hasPendingButton = False, hasMessageButton = True,
         connectionDegree = ''1st'', isPendingInHtml = True, isConnectedInHtml = True\<rparr>) = 0.95"
  using decide_status_precedence [of "\<lparr>hasConnectButton = True, hasPendingButton = False,
       hasMessageButton = True, connectionDegree = ''1st'', isPendingInHtml = True,
       isConnectedInHtml = True\<rparr>"]
  by simp

text \<open>
  C8: the classifier never fails. Whenever the page signals are available the
  classification is a result, not an error; its confidence is one of 0.5, 0.9 and 0.95; and
  when every flag is false and the degree text is empty the result is UNKNOWN with
  confidence 0.5.
\<close>

theorem classifier_total:
  "(evaluation_at e visit = Inr ev \<longrightarrow>
      determineConnectionStatus e visit = Inr (decide_status ev))
   \<and> confidence (decide_status ev) \<in> {0.5, 0.9, 0.95}
   \<and> (\<not> hasConnectButton ev \<and> \<not> hasPendingButton ev \<and> \<not> hasMessageButton ev
        \<and> connectionDegree ev = [] \<and> \<not> isPendingInHtml ev \<and> \<not> isConnectedInHtml ev \<longrightarrow>
        result_status (decide_status ev) = UNKNOWN \<and> confidence (decide_status ev) = 0.5)"
  by (simp add: determineConnectionStatus_def decide_status_def Let_def)

theorem classifier_total_witness:
  "evaluation_at (sample_env\<lparr>evaluation_at := \<lambda>n. Inr no_signals\<rparr>) 0 = Inr no_signals
   \<and> determineConnectionStatus (sample_env\<lparr>evaluation_at := \<lambda>n. Inr no_signals\<rparr>) 0
       = Inr (decide_status no_signals)
   \<and> result_status (decide_status no_signals) = UNKNOWN
   \<and> confidence (decide_status no_signals) = 0.5"
  using classifier_total [of "sample_env\<lparr>evaluation_at := \<lambda>n. Inr no_signals\<rparr>" 0 no_signals]
  by (simp add: no_signals_def)

section \<open>The retries of a status update\<close>

text \<open>
  C2: with three attempts allowed, when the first two writes fail and the third succeeds,
  the update succeeds; its calls are exactly three writes of the status and the confidence
  to columns B and C of the given row, with a wait of 1000 ms after the first failure and
  of 2000 ms after the second, and nothing else after the initialisation of the client.
\<close>

theorem updateProfileStatus_succeeds_on_third_attempt:
  assumes "maxRetries c = 3"
    and "initialized c \<or> sheets_get_at e (gets w) = None"
    and "values_update_at e (updates w) = Some err1"
    and "values_update_at e (Suc (updates w)) = Some err2"
    and "values_update_at e (Suc (Suc (updates w))) = None"
  shows "case updateProfileStatus e c rowNumber st conf_arg w of
           (r, c1, w1) \<Rightarrow>
             r = Inr ()
             \<and> updates w1 = updates w + 3
             \<and> trace w1 =
                 trace w
                 @ (if initialized c then [] else [Spreadsheets_Get (spreadsheetId c)])
                 @ [Values_Update (spreadsheetId c) (status_range (sheetName c) rowNumber)
                      [[st, number_toString (case conf_arg of None \<Rightarrow> 0.9 | Some v \<Rightarrow> v)]],
                    Set_Timeout 1000,
                    Values_Update (spreadsheetId c) (status_range (sheetName c) rowNumber)
                      [[st, number_toString (case conf_arg of None \<Rightarrow> 0.9 | Some v \<Rightarrow> v)]],
                    Set_Timeout 2000,
                    Values_Update (spreadsheetId c) (status_range (sheetName c) rowNumber)
                      [[st, number_toString (case conf_arg of None \<Rightarrow> 0.9 | Some v \<Rightarrow> v)]]]"
  using assms
  by (auto simp add: updateProfileStatus_def ensure_initialized_def client_init_def
      update_attempts.simps emit_def Let_def)

theorem updateProfileStatus_succeeds_on_third_attempt_witness:
  "maxRetries sample_client = 3
   \<and> values_update_at sample_env (updates (world0\<lparr>updates := 1\<rparr>)) = Some (Error ''Quota exceeded'')
   \<and> values_update_at sample_env (Suc (Suc (updates (world0\<lparr>updates := 1\<rparr>)))) = None
   \<and> (case updateProfileStatus sample_env sample_client 5 ''pending'' None (world0\<lparr>updates := 1\<rparr>) of
         (r, c1, w1) \<Rightarrow>
           r = Inr () \<and> updates w1 = 4
           \<and> trace w1 =
               [Spreadsheets_Get ''sheet-id'',
                Values_Update ''sheet-id'' ''Sheet1!B5:C5'' [[''pending'', ''0.9'']],
                Set_Timeout 1000,
                Values_Update ''sheet-id'' ''Sheet1!B5:C5'' [[''pending'', ''0.9'']],
                Set_Timeout 2000,
                Values_Update ''sheet-id'' ''Sheet1!B5:C5'' [[''pending'', ''0.9'']]])"
  using updateProfileStatus_succeeds_on_third_attempt
    [of sample_client sample_env "world0\<lparr>updates := 1\<rparr>" "Error ''Quota exceeded''"
      "Error ''Quota exceeded''" 5 "''pending''" None]
  by (simp add: sample_client_def sample_env_def world0_def status_range_def
      nat_toString.simps digit_char_def number_toString_def)

text \<open>
  C3: with three attempts allowed, when the first three writes fail, the update makes
  exactly three attempts, each one write to the given row, waits 1000 ms and 2000 ms between
  them, makes no fourth attempt whatever a fourth write would answer, and throws the error
  of the third attempt.
\<close>

theorem updateProfileStatus_fails_after_three_attempts:
  assumes "maxRetries c = 3"
    and "initialized c \<or> sheets_get_at e (gets w) = None"
    and "values_update_at e (updates w) = Some err1"
    and "values_update_at e (Suc (updates w)) = Some err2"
    and "values_update_at e (Suc (Suc (updates w))) = Some err3"
  shows "case updateProfileStatus e c rowNumber st conf_arg w of
           (r, c1, w1) \<Rightarrow>
             r = Inl err3
             \<and> updates w1 = updates w + 3
             \<and> trace w1 =
                 trace w
                 @ (if initialized c then [] else [Spreadsheets_Get (spreadsheetId c)])
                 @ [Values_Update (spreadsheetId c) (status_range (sheetName c) rowNumber)
                      [[st, number_toString (case conf_arg of None \<Rightarrow> 0.9 | Some v \<Rightarrow> v)]],
                    Set_Timeout 1000,
                    Values_Update (spreadsheetId c) (status_range (sheetName c) rowNumber)
                      [[st, number_toString (case conf_arg of None \<Rightarrow> 0.9 | Some v \<Rightarrow> v)]],
                    Set_Timeout 2000,
                    Values_Update (spreadsheetId c) (status_range (sheetName c) rowNumber)
                      [[st, number_toString (case conf_arg of None \<Rightarrow> 0.9 | Some v \<Rightarrow> v)]]]"
  using assms
  by (auto simp add: updateProfileStatus_def ensure_initialized_def client_init_def
      update_attempts.simps emit_def Let_def)

theorem updateProfileStatus_fails_after_three_attempts_witness:
  "maxRetries sample_client = 3
   \<and> values_update_at sample_env (Suc (Suc (updates world0))) = Some (Error ''Quota exceeded'')
   \<and> values_update_at sample_env (Suc (Suc (Suc (updates world0)))) = None
   \<and> (case updateProfileStatus sample_env sample_client 5 ''pending'' None world0 of
         (r, c1, w1) \<Rightarrow>
           r = Inl (Error ''Quota exceeded'') \<and> updates w1 = 3
           \<and> trace w1 =
               [Spreadsheets_Get ''sheet-id'',
                Values_Update ''sheet-id'' ''Sheet1!B5:C5'' [[''pending'', ''0.9'']],
                Set_Timeout 1000,
                Values_Update ''sheet-id'' ''Sheet1!B5:C5'' [[''pending'', ''0.9'']],
                Set_Timeout 2000,
                Values_Update ''sheet-id'' ''Sheet1!B5:C5'' [[''pending'', ''0.9'']]])"
  using updateProfileStatus_fails_after_three_attempts
    [of sample_client sample_env world0 "Error ''Quota exceeded''"
      "Error ''Quota exceeded''" "Error ''Quota exceeded''" 5 "''pending''" None]
  by (simp add: sample_client_def sample_env_def world0_def status_range_def
      nat_toString.simps digit_char_def number_toString_def)

section \<open>The main loop\<close>

lemma sample_run:
  "main_loop sample_env ''sheet-id'' ''Sheet1'' sample_profiles [] world0 =
     ([\<lparr>url = ''https://www.linkedin.com/in/satyanadella'', status = Some PENDING, row = 5\<rparr>,
       \<lparr>url = ''linkedin.com/in/sundarpichai'', status = Some NOT_CONNECTED, row = 7\<rparr>],
      \<lparr>visits = 3, constructs = 2, gets = 2, reads = 0, updates = 4,
       trace =
         [Page_Goto ''https://www.linkedin.com/in/williamhgates'',
          Console (Error_Processing ''https://www.linkedin.com/in/williamhgates''),
          Set_Timeout 3000,
          Page_Goto ''https://www.linkedin.com/in/satyanadella'',
          Initialize_Client,
          Spreadsheets_Get ''sheet-id'',
          Values_Update ''sheet-id'' ''Sheet1!B5:C5'' [[''pending'', ''0.9'']],
          Set_Timeout 1000,
          Values_Update ''sheet-id'' ''Sheet1!B5:C5'' [[''pending'', ''0.9'']],
          Set_Timeout 2000,
          Values_Update ''sheet-id'' ''Sheet1!B5:C5'' [[''pending'', ''0.9'']],
          Console (Error_Updating_Sheet ''Quota exceeded''),
          Set_Timeout 3000,
          Page_Goto ''linkedin.com/in/sundarpichai'',
          Initialize_Client,
          Spreadsheets_Get ''sheet-id'',
          Values_Update ''sheet-id'' ''Sheet1!B7:C7'' [[''not_connected'', ''0.9'']],
          Set_Timeout 3000]\<rparr>)"
  by code_simp

lemma sample_first_turn:
  "main_loop sample_env ''sheet-id'' ''Sheet1'' (take 1 sample_profiles) [] world0 =
     ([],
      \<lparr>visits = 1, constructs = 0, gets = 0, reads = 0, updates = 0,
       trace =
         [Page_Goto ''https://www.linkedin.com/in/williamhgates'',
          Console (Error_Processing ''https://www.linkedin.com/in/williamhgates''),
          Set_Timeout 3000]\<rparr>)"
  by code_simp

lemma flaky_two_turns:
  "main_loop flaky_env ''sheet-id'' ''Sheet1'' (take 2 sample_profiles) [] world0 =
     ([\<lparr>url = ''https://www.linkedin.com/in/satyanadella'', status = Some PENDING, row = 5\<rparr>],
      \<lparr>visits = 2, constructs = 1, gets = 1, reads = 0, updates = 0,
       trace =
         [Page_Goto ''https://www.linkedin.com/in/williamhgates'',
          Console (Error_Processing ''https://www.linkedin.com/in/williamhgates''),
          Set_Timeout 3000,
          Page_Goto ''https://www.linkedin.com/in/satyanadella'',
          Initialize_Client,
          Spreadsheets_Get ''sheet-id'',
          Console Sheet_Not_Editable,
          Console (Would_Update_Row 5 PENDING),
          Set_Timeout 3000]\<rparr>)"
  by code_simp

text \<open>
  C6: no failure of a single profile ends the run. Let the loop have run over the first
  \<open>i\<close> profiles, whatever happened to them, and let \<open>p\<close> be the next profile. Its turn
  takes place: it is the visit number \<open>i\<close> of the run, and the run over the whole list is
  the run over all its turns. When the processing of \<open>p\<close> fails (navigation error,
  rate-limited page, failed evaluation), the turn is the navigation, the message of the outer
  handler and the pause, and the results are unchanged. When it succeeds, \<open>p\<close> joins the
  results with its classified status and the sheet update is attempted with the counters the
  earlier turns have left: when the set-up or the initialisation of its own client throws,
  the inner handler prints its messages and the turn ends with the pause; when both succeed,
  the write of the profile's status to the status range of its row is made, whatever
  happened to the clients of the earlier profiles; when all three writes fail, the inner
  handler prints its messages for the third error and the turn ends with the pause.
\<close>

theorem main_loop_contains_failures:
  assumes "i < length profiles"
    and "main_loop e sid sn (take i profiles) results w = (ri, wi)"
    and "main_loop e sid sn (take (Suc i) profiles) results w = (rj, wj)"
    and "p = profiles ! i"
  shows "visits wi = visits w + i
    \<and> main_loop e sid sn (take (length profiles) profiles) results w
        = main_loop e sid sn profiles results w
    \<and> (\<not> processing_succeeds e (visits wi) \<longrightarrow>
         rj = ri
         \<and> trace wj = trace wi @ [Page_Goto (url p), Console (Error_Processing (url p)),
                                   Set_Timeout 3000])
    \<and> (processing_succeeds e (visits wi) \<longrightarrow>
         (\<forall>ev. evaluation_at e (visits wi) = Inr ev \<longrightarrow>
            rj = ri @ [p\<lparr>status := Some (result_status (decide_status ev))\<rparr>]
            \<and> (\<forall>err. construct_at e (constructs wi) = Some err \<longrightarrow>
                  trace wj = trace wi @ [Page_Goto (url p), Initialize_Client]
                    @ map Console (handler_messages p (result_status (decide_status ev)) err)
                    @ [Set_Timeout 3000])
            \<and> (\<forall>err. construct_at e (constructs wi) = None
                       \<and> sheets_get_at e (gets wi) = Some err \<longrightarrow>
                  trace wj = trace wi
                    @ [Page_Goto (url p), Initialize_Client, Spreadsheets_Get sid]
                    @ map Console (handler_messages p (result_status (decide_status ev)) err)
                    @ [Set_Timeout 3000])
            \<and> (construct_at e (constructs wi) = None \<and> sheets_get_at e (gets wi) = None \<longrightarrow>
                  (\<exists>rest. trace wj = trace wi
                     @ [Page_Goto (url p), Initialize_Client, Spreadsheets_Get sid,
                        Values_Update sid (status_range sn (row p))
                          [[status_value (result_status (decide_status ev)), ''0.9'']]]
                     @ rest @ [Set_Timeout 3000]))
            \<and> (\<forall>err1 err2 err3.
                  construct_at e (constructs wi) = None \<and> sheets_get_at e (gets wi) = None
                  \<and> values_update_at e (updates wi) = Some err1
                  \<and> values_update_at e (Suc (updates wi)) = Some err2
                  \<and> values_update_at e (Suc (Suc (updates wi))) = Some err3 \<longrightarrow>
                  trace wj = trace wi
                    @ [Page_Goto (url p), Initialize_Client, Spreadsheets_Get sid,
                       Values_Update sid (status_range sn (row p))
                         [[status_value (result_status (decide_status ev)), ''0.9'']],
                       Set_Timeout 1000,
                       Values_Update sid (status_range sn (row p))
                         [[status_value (result_status (decide_status ev)), ''0.9'']],
                       Set_Timeout 2000,
                       Values_Update sid (status_range sn (row p))
                         [[status_value (result_status (decide_status ev)), ''0.9'']]]
                    @ map Console (handler_messages p (result_status (decide_status ev)) err3)
                    @ [Set_Timeout 3000])))"
proof (intro conjI impI allI)
  have it: "main_iteration e sid sn p ri wi = (rj, wj)"
    using main_loop_take_Suc [OF assms(1,2)] assms(3,4) by simp
  then have fst_it: "fst (main_iteration e sid sn p ri wi) = rj"
    and snd_it: "snd (main_iteration e sid sn p ri wi) = wj"
    by simp_all
  show "visits wi = visits w + i"
    using main_loop_visits [of e sid sn "take i profiles" results w] assms(1,2) by simp
  show "main_loop e sid sn (take (length profiles) profiles) results w
        = main_loop e sid sn profiles results w"
    by simp
  {
    assume bad: "\<not> processing_succeeds e (visits wi)"
    from main_iteration_failed [OF bad, where sid = sid and sn = sn and profile = p and rs = ri] it
    show "rj = ri"
      and "trace wj = trace wi @ [Page_Goto (url p), Console (Error_Processing (url p)),
                                   Set_Timeout 3000]"
      by auto
  }
  fix ev
  assume ok: "processing_succeeds e (visits wi)" and ev: "evaluation_at e (visits wi) = Inr ev"
  note tc = turn_cases [OF ok ev, where sid = sid and sn = sn and profile = p and rs = ri,
      unfolded fst_it snd_it]
  let ?U = "Values_Update sid (status_range sn (row p))
              [[status_value (result_status (decide_status ev)), ''0.9'']]"
  show "rj = ri @ [p\<lparr>status := Some (result_status (decide_status ev))\<rparr>]"
    by (rule tc(1))
  {
    fix err
    assume "construct_at e (constructs wi) = Some err"
    then show "trace wj = trace wi @ [Page_Goto (url p), Initialize_Client]
                    @ map Console (handler_messages p (result_status (decide_status ev)) err)
                    @ [Set_Timeout 3000]"
      by (rule tc(2))
  }
  {
    fix err
    assume "construct_at e (constructs wi) = None \<and> sheets_get_at e (gets wi) = Some err"
    then show "trace wj = trace wi
                    @ [Page_Goto (url p), Initialize_Client, Spreadsheets_Get sid]
                    @ map Console (handler_messages p (result_status (decide_status ev)) err)
                    @ [Set_Timeout 3000]"
      using tc(3) by blast
  }
  {
    assume usable: "construct_at e (constructs wi) = None \<and> sheets_get_at e (gets wi) = None"
    then have c: "construct_at e (constructs wi) = None" and g: "sheets_get_at e (gets wi) = None"
      by simp_all
    show "\<exists>rest. trace wj = trace wi
                     @ [Page_Goto (url p), Initialize_Client, Spreadsheets_Get sid, ?U]
                     @ rest @ [Set_Timeout 3000]"
    proof (cases "values_update_at e (updates wi)")
      case None
      from tc(4) [OF c g None]
      have "trace wj = trace wi
                     @ [Page_Goto (url p), Initialize_Client, Spreadsheets_Get sid, ?U]
                     @ [] @ [Set_Timeout 3000]"
        by simp
      then show ?thesis by blast
    next
      case a0: (Some err1)
      show ?thesis
      proof (cases "values_update_at e (Suc (updates wi))")
        case None
        from tc(5) [OF c g a0 None]
        have "trace wj = trace wi
                     @ [Page_Goto (url p), Initialize_Client, Spreadsheets_Get sid, ?U]
                     @ [Set_Timeout 1000, ?U] @ [Set_Timeout 3000]"
          by simp
        then show ?thesis by blast
      next
        case a1: (Some err2)
        show ?thesis
        proof (cases "values_update_at e (Suc (Suc (updates wi)))")
          case None
          from tc(6) [OF c g a0 a1 None]
          have "trace wj = trace wi
                     @ [Page_Goto (url p), Initialize_Client, Spreadsheets_Get sid, ?U]
                     @ [Set_Timeout 1000, ?U, Set_Timeout 2000, ?U] @ [Set_Timeout 3000]"
            by simp
          then show ?thesis by blast
        next
          case a2: (Some err3)
          from tc(7) [OF c g a0 a1 a2]
          have "trace wj = trace wi
                     @ [Page_Goto (url p), Initialize_Client, Spreadsheets_Get sid, ?U]
                     @ ([Set_Timeout 1000, ?U, Set_Timeout 2000, ?U]
                        @ map Console
                            (handler_messages p (result_status (decide_status ev)) err3))
                     @ [Set_Timeout 3000]"
            by simp
          then show ?thesis by blast
        qed
      qed
    qed
  }
  fix err1 err2 err3
  assume "construct_at e (constructs wi) = None \<and> sheets_get_at e (gets wi) = None
                  \<and> values_update_at e (updates wi) = Some err1
                  \<and> values_update_at e (Suc (updates wi)) = Some err2
                  \<and> values_update_at e (Suc (Suc (updates wi))) = Some err3"
  then show "trace wj = trace wi
                    @ [Page_Goto (url p), Initialize_Client, Spreadsheets_Get sid,
                       ?U, Set_Timeout 1000, ?U, Set_Timeout 2000, ?U]
                    @ map Console (handler_messages p (result_status (decide_status ev)) err3)
                    @ [Set_Timeout 3000]"
    using tc(7) by blast
qed

theorem main_loop_contains_failures_witness:
  "2 < length sample_profiles
   \<and> sheets_get_at flaky_env 0 = Some (Error ''Request had insufficient permission'')
   \<and> processing_succeeds flaky_env 2
   \<and> evaluation_at flaky_env 2 = Inr connect_signals
   \<and> result_status (decide_status connect_signals) = NOT_CONNECTED
   \<and> construct_at flaky_env 1 = None
   \<and> sheets_get_at flaky_env 1 = None
   \<and> trace (snd (main_loop flaky_env ''sheet-id'' ''Sheet1'' (take 2 sample_profiles) [] world0))
       = [Page_Goto ''https://www.linkedin.com/in/williamhgates'',
          Console (Error_Processing ''https://www.linkedin.com/in/williamhgates''),
          Set_Timeout 3000,
          Page_Goto ''https://www.linkedin.com/in/satyanadella'',
          Initialize_Client,
          Spreadsheets_Get ''sheet-id'',
          Console Sheet_Not_Editable,
          Console (Would_Update_Row 5 PENDING),
          Set_Timeout 3000]
   \<and> (\<exists>rest.
         trace (snd (main_loop flaky_env ''sheet-id'' ''Sheet1'' (take (Suc 2) sample_profiles)
                       [] world0))
         = trace (snd (main_loop flaky_env ''sheet-id'' ''Sheet1'' (take 2 sample_profiles)
                         [] world0))
           @ [Page_Goto ''linkedin.com/in/sundarpichai'',
              Initialize_Client,
              Spreadsheets_Get ''sheet-id'',
              Values_Update ''sheet-id'' ''Sheet1!B7:C7'' [[''not_connected'', ''0.9'']]]
           @ rest @ [Set_Timeout 3000])"
proof -
  let ?w2 = "\<lparr>visits = 2, constructs = 1, gets = 1, reads = 0, updates = 0,
       trace =
         [Page_Goto ''https://www.linkedin.com/in/williamhgates'',
          Console (Error_Processing ''https://www.linkedin.com/in/williamhgates''),
          Set_Timeout 3000,
          Page_Goto ''https://www.linkedin.com/in/satyanadella'',
          Initialize_Client,
          Spreadsheets_Get ''sheet-id'',
          Console Sheet_Not_Editable,
          Console (Would_Update_Row 5 PENDING),
          Set_Timeout 3000]\<rparr>"
  let ?next = "main_loop flaky_env ''sheet-id'' ''Sheet1'' (take (Suc 2) sample_profiles)
                 [] world0"
  have len: "2 < length sample_profiles"
    by (simp add: sample_profiles_def)
  have failed: "sheets_get_at flaky_env 0 = Some (Error ''Request had insufficient permission'')"
    by (simp add: flaky_env_def)
  have ok: "processing_succeeds flaky_env (visits ?w2)"
    by (simp add: processing_succeeds_def flaky_env_def sample_env_def)
  have ev: "evaluation_at flaky_env (visits ?w2) = Inr connect_signals"
    by (simp add: flaky_env_def sample_env_def)
  have st: "result_status (decide_status connect_signals) = NOT_CONNECTED"
    by (simp add: decide_status_def connect_signals_def)
  have usable: "construct_at flaky_env (constructs ?w2) = None
                \<and> sheets_get_at flaky_env (gets ?w2) = None"
    by (simp add: flaky_env_def sample_env_def)
  have nxt: "?next = (fst ?next, snd ?next)"
    by simp
  note inst = main_loop_contains_failures [OF len flaky_two_turns nxt refl]
  from inst ok ev usable
  have "\<exists>rest. trace (snd ?next) = trace ?w2
          @ [Page_Goto (url (sample_profiles ! 2)), Initialize_Client,
             Spreadsheets_Get ''sheet-id'',
             Values_Update ''sheet-id'' (status_range ''Sheet1'' (row (sample_profiles ! 2)))
               [[status_value (result_status (decide_status connect_signals)), ''0.9'']]]
          @ rest @ [Set_Timeout 3000]"
    by blast
  then have later: "\<exists>rest. trace (snd ?next) = trace ?w2
          @ [Page_Goto ''linkedin.com/in/sundarpichai'', Initialize_Client,
             Spreadsheets_Get ''sheet-id'',
             Values_Update ''sheet-id'' ''Sheet1!B7:C7'' [[''not_connected'', ''0.9'']]]
          @ rest @ [Set_Timeout 3000]"
    by (simp add: st sample_profiles_def status_range_def nat_toString.simps digit_char_def)
  from ok ev usable have "processing_succeeds flaky_env 2"
    "evaluation_at flaky_env 2 = Inr connect_signals"
    "construct_at flaky_env 1 = None" "sheets_get_at flaky_env 1 = None"
    by simp_all
  with len failed st later show ?thesis
    by (simp add: flaky_two_turns)
qed

text \<open>
  C10: the confidence written by the main loop is always the text 0.9. The loop calls
  the update without a confidence, which is the same as calling it with 0.9, and every
  spreadsheet write that the loop adds to the trace carries one row of two cells: a status
  value and the text 0.9, whatever confidence the classifier gave.
\<close>

theorem main_loop_persists_default_confidence:
  "updateProfileStatus e c rowNumber st None w = updateProfileStatus e c rowNumber st (Some 0.9) w
   \<and> (\<exists>seg. trace (snd (main_loop e sid sn profiles results w)) = trace w @ seg
        \<and> (\<forall>ev\<in>set seg. \<forall>sid' rng vals. ev = Values_Update sid' rng vals \<longrightarrow>
              (\<exists>s. vals = [[status_value s, ''0.9'']])))"
proof
  show "updateProfileStatus e c rowNumber st None w
      = updateProfileStatus e c rowNumber st (Some 0.9) w"
    by (simp add: updateProfileStatus_def)
next
  from main_loop_events [of e sid sn profiles results w] obtain seg where seg:
    "trace (snd (main_loop e sid sn profiles results w)) = trace w @ seg"
    "\<forall>ev\<in>set seg. \<exists>p\<in>set profiles. ev = Page_Goto (url p) \<or> turn_event sid sn p ev"
    by blast
  have "\<forall>ev\<in>set seg. \<forall>sid' rng vals. ev = Values_Update sid' rng vals \<longrightarrow>
          (\<exists>s. vals = [[status_value s, ''0.9'']])"
  proof (intro ballI allI impI)
    fix ev sid' rng vals
    assume "ev \<in> set seg" and ev: "ev = Values_Update sid' rng vals"
    with seg(2) obtain p where "turn_event sid sn p (Values_Update sid' rng vals)"
      by auto
    then show "\<exists>s. vals = [[status_value s, ''0.9'']]" by (rule turn_event_confidence)
  qed
  with seg(1) show "\<exists>seg. trace (snd (main_loop e sid sn profiles results w)) = trace w @ seg
        \<and> (\<forall>ev\<in>set seg. \<forall>sid' rng vals. ev = Values_Update sid' rng vals \<longrightarrow>
              (\<exists>s. vals = [[status_value s, ''0.9'']]))"
    by blast
qed

theorem main_loop_persists_default_confidence_witness:
  "evaluation_at sample_env 1 = Inr pending_signals
   \<and> confidence (decide_status pending_signals) = 0.95
   \<and> Values_Update ''sheet-id'' ''Sheet1!B5:C5'' [[''pending'', ''0.9'']]
       \<in> set (trace (snd (main_loop sample_env ''sheet-id'' ''Sheet1'' sample_profiles [] world0)))
   \<and> Values_Update ''sheet-id'' ''Sheet1!B5:C5'' [[''pending'', ''0.95'']]
       \<notin> set (trace (snd (main_loop sample_env ''sheet-id'' ''Sheet1'' sample_profiles [] world0)))"
proof -
  have "evaluation_at sample_env 1 = Inr pending_signals"
    by (simp add: sample_env_def)
  moreover have "confidence (decide_status pending_signals) = 0.95"
    by (simp add: decide_status_def pending_signals_def)
  moreover have "Values_Update ''sheet-id'' ''Sheet1!B5:C5'' [[''pending'', ''0.9'']]
       \<in> set (trace (snd (main_loop sample_env ''sheet-id'' ''Sheet1'' sample_profiles [] world0)))"
    by (simp add: sample_run)
  moreover have "Values_Update ''sheet-id'' ''Sheet1!B5:C5'' [[''pending'', ''0.95'']]
       \<notin> set (trace (snd (main_loop sample_env ''sheet-id'' ''Sheet1'' sample_profiles [] world0)))"
  proof
    assume written: "Values_Update ''sheet-id'' ''Sheet1!B5:C5'' [[''pending'', ''0.95'']]
       \<in> set (trace (snd (main_loop sample_env ''sheet-id'' ''Sheet1'' sample_profiles [] world0)))"
    from main_loop_persists_default_confidence
      [where e = sample_env and sid = "''sheet-id''" and sn = "''Sheet1''"
         and profiles = sample_profiles and results = "[]" and w = world0]
    obtain seg where seg:
      "trace (snd (main_loop sample_env ''sheet-id'' ''Sheet1'' sample_profiles [] world0))
         = trace world0 @ seg"
      "\<forall>ev\<in>set seg. \<forall>sid' rng vals. ev = Values_Update sid' rng vals \<longrightarrow>
              (\<exists>s. vals = [[status_value s, ''0.9'']])"
      by blast
    have "trace world0 = []" by (simp add: world0_def)
    with seg(1) written
    have "Values_Update ''sheet-id'' ''Sheet1!B5:C5'' [[''pending'', ''0.95'']] \<in> set seg"
      by simp
    with seg(2) have "\<exists>s. [[''pending'', ''0.95'']] = [[status_value s, ''0.9'']]"
      by blast
    then show False by simp
  qed
  ultimately show ?thesis by blast
qed

text \<open>
  C5, as the program has it: the turn of a profile whose processing succeeds is, after
  the navigation and the set-up of a sheet client, exactly this. When the set-up or the
  initialisation of the client throws, the messages of the inner handler. Otherwise one,
  two or three writes of the profile's classified status and the text 0.9 to the status
  range of the profile's row: one when the first write succeeds, two with a wait of 1000 ms
  when only the first fails, three with waits of 1000 and 2000 ms otherwise; when the third
  fails too, the messages of the inner handler for its error. Then the pause. No turn and no
  run of the loop writes a file. The export function, when called, writes one file whose
  content is the header line followed by one line \<open>url,status\<close> per result, but nothing
  in the run calls it.
\<close>

theorem main_loop_sheet_output:
  assumes "i < length profiles"
    and "main_loop e sid sn (take i profiles) results w = (ri, wi)"
    and "main_loop e sid sn (take (Suc i) profiles) results w = (rj, wj)"
    and "processing_succeeds e (visits wi)"
    and "evaluation_at e (visits wi) = Inr ev"
    and "p = profiles ! i"
    and "st = result_status (decide_status ev)"
    and "u = Values_Update sid (status_range sn (row p)) [[status_value st, ''0.9'']]"
  shows "trace wj =
           trace wi @ [Page_Goto (url p), Initialize_Client]
           @ (case construct_at e (constructs wi) of
                Some err \<Rightarrow> map Console (handler_messages p st err)
              | None \<Rightarrow>
                  Spreadsheets_Get sid
                  # (case sheets_get_at e (gets wi) of
                       Some err \<Rightarrow> map Console (handler_messages p st err)
                     | None \<Rightarrow>
                         (case values_update_at e (updates wi) of
                            None \<Rightarrow> [u]
                          | Some err1 \<Rightarrow>
                              (case values_update_at e (Suc (updates wi)) of
                                 None \<Rightarrow> [u, Set_Timeout 1000, u]
                               | Some err2 \<Rightarrow>
                                   [u, Set_Timeout 1000, u, Set_Timeout 2000, u]
                                   @ (case values_update_at e (Suc (Suc (updates wi))) of
                                        None \<Rightarrow> []
                                      | Some err3 \<Rightarrow>
                                          map Console (handler_messages p st err3))))))
           @ [Set_Timeout 3000]
     \<and> file_writes (trace wj) = file_writes (trace wi)
     \<and> file_writes (trace (snd (main_loop e sid sn profiles results w))) = file_writes (trace w)
     \<and> file_writes (trace (exportResultsToCSV timestamp rs w))
         = file_writes (trace w)
           @ [(''linkedin_results_''
                 @ map (\<lambda>ch. if ch = CHR '':'' \<or> ch = CHR ''.'' then CHR ''-'' else ch) timestamp
                 @ ''.csv'',
               ''LinkedIn URL,Connection Status'' @ [CHR 0x0A]
                 @ str_join (map (\<lambda>(u, st). u @ '','' @ st) rs) [CHR 0x0A])]"
proof (intro conjI)
  have it: "main_iteration e sid sn p ri wi = (rj, wj)"
    using main_loop_take_Suc [OF assms(1,2)] assms(3,6) by simp
  then have snd_it: "snd (main_iteration e sid sn p ri wi) = wj"
    by simp
  note tc = turn_cases [OF assms(4,5), where sid = sid and sn = sn and profile = p and rs = ri,
      unfolded snd_it, folded assms(7), folded assms(8)]
  show "trace wj =
           trace wi @ [Page_Goto (url p), Initialize_Client]
           @ (case construct_at e (constructs wi) of
                Some err \<Rightarrow> map Console (handler_messages p st err)
              | None \<Rightarrow>
                  Spreadsheets_Get sid
                  # (case sheets_get_at e (gets wi) of
                       Some err \<Rightarrow> map Console (handler_messages p st err)
                     | None \<Rightarrow>
                         (case values_update_at e (updates wi) of
                            None \<Rightarrow> [u]
                          | Some err1 \<Rightarrow>
                              (case values_update_at e (Suc (updates wi)) of
                                 None \<Rightarrow> [u, Set_Timeout 1000, u]
                               | Some err2 \<Rightarrow>
                                   [u, Set_Timeout 1000, u, Set_Timeout 2000, u]
                                   @ (case values_update_at e (Suc (Suc (updates wi))) of
                                        None \<Rightarrow> []
                                      | Some err3 \<Rightarrow>
                                          map Console (handler_messages p st err3))))))
           @ [Set_Timeout 3000]"
  proof (cases "construct_at e (constructs wi)")
    case (Some err)
    with tc(2) [OF Some] show ?thesis by simp
  next
    case c: None
    show ?thesis
    proof (cases "sheets_get_at e (gets wi)")
      case (Some err)
      with tc(3) [OF c Some] c show ?thesis by simp
    next
      case g: None
      show ?thesis
      proof (cases "values_update_at e (updates wi)")
        case None
        with tc(4) [OF c g None] c g show ?thesis by simp
      next
        case a0: (Some err1)
        show ?thesis
        proof (cases "values_update_at e (Suc (updates wi))")
          case None
          with tc(5) [OF c g a0 None] c g a0 show ?thesis by simp
        next
          case a1: (Some err2)
          show ?thesis
          proof (cases "values_update_at e (Suc (Suc (updates wi)))")
            case None
            with tc(6) [OF c g a0 a1 None] c g a0 a1 show ?thesis by simp
          next
            case (Some err3)
            with tc(7) [OF c g a0 a1 Some] c g a0 a1 show ?thesis by simp
          qed
        qed
      qed
    qed
  qed
  from main_iteration_trace [of e sid sn p ri wi] snd_it
  obtain seg where "trace wj = trace wi @ Page_Goto (url p) # seg"
    "\<forall>ev\<in>set seg. turn_event sid sn p ev"
    by auto
  then have "\<forall>ev\<in>set (Page_Goto (url p) # seg).
      \<exists>q\<in>{p}. ev = Page_Goto (url q) \<or> turn_event sid sn q ev"
    by simp
  then have "file_writes (Page_Goto (url p) # seg) = []"
    by (rule file_writes_none)
  with \<open>trace wj = trace wi @ Page_Goto (url p) # seg\<close>
  show "file_writes (trace wj) = file_writes (trace wi)"
    by (simp add: file_writes_append)
  from main_loop_events [of e sid sn profiles results w] obtain seg' where seg':
    "trace (snd (main_loop e sid sn profiles results w)) = trace w @ seg'"
    "\<forall>ev\<in>set seg'. \<exists>q\<in>set profiles. ev = Page_Goto (url q) \<or> turn_event sid sn q ev"
    by blast
  from seg'(2) have "file_writes seg' = []" by (rule file_writes_none)
  with seg'(1) show "file_writes (trace (snd (main_loop e sid sn profiles results w)))
      = file_writes (trace w)"
    by (simp add: file_writes_append)
  show "file_writes (trace (exportResultsToCSV timestamp rs w))
         = file_writes (trace w)
           @ [(''linkedin_results_''
                 @ map (\<lambda>ch. if ch = CHR '':'' \<or> ch = CHR ''.'' then CHR ''-'' else ch) timestamp
                 @ ''.csv'',
               ''LinkedIn URL,Connection Status'' @ [CHR 0x0A]
                 @ str_join (map (\<lambda>(u, st). u @ '','' @ st) rs) [CHR 0x0A])]"
    by (simp add: exportResultsToCSV_def Let_def file_writes_append)
qed

theorem main_loop_sheet_output_witness:
  "1 < length sample_profiles
   \<and> processing_succeeds sample_env 1
   \<and> evaluation_at sample_env 1 = Inr pending_signals
   \<and> result_status (decide_status pending_signals) = PENDING
   \<and> trace (snd (main_loop sample_env ''sheet-id'' ''Sheet1'' (take (Suc 1) sample_profiles)
                    [] world0))
       = trace (snd (main_loop sample_env ''sheet-id'' ''Sheet1'' (take 1 sample_profiles)
                       [] world0))
         @ [Page_Goto ''https://www.linkedin.com/in/satyanadella'',
            Initialize_Client,
            Spreadsheets_Get ''sheet-id'',
            Values_Update ''sheet-id'' ''Sheet1!B5:C5'' [[''pending'', ''0.9'']],
            Set_Timeout 1000,
            Values_Update ''sheet-id'' ''Sheet1!B5:C5'' [[''pending'', ''0.9'']],
            Set_Timeout 2000,
            Values_Update ''sheet-id'' ''Sheet1!B5:C5'' [[''pending'', ''0.9'']],
            Console (Error_Updating_Sheet ''Quota exceeded''),
            Set_Timeout 3000]
   \<and> file_writes (trace (snd (main_loop sample_env ''sheet-id'' ''Sheet1'' sample_profiles
                                  [] world0))) = []"
proof -
  let ?w1 = "\<lparr>visits = 1, constructs = 0, gets = 0, reads = 0, updates = 0,
       trace =
         [Page_Goto ''https://www.linkedin.com/in/williamhgates'',
          Console (Error_Processing ''https://www.linkedin.com/in/williamhgates''),
          Set_Timeout 3000]\<rparr>"
  let ?next = "main_loop sample_env ''sheet-id'' ''Sheet1'' (take (Suc 1) sample_profiles)
                 [] world0"
  have len: "1 < length sample_profiles"
    by (simp add: sample_profiles_def)
  have ok: "processing_succeeds sample_env (visits ?w1)"
    by (simp add: processing_succeeds_def sample_env_def)
  have ev: "evaluation_at sample_env (visits ?w1) = Inr pending_signals"
    by (simp add: sample_env_def)
  have st: "result_status (decide_status pending_signals) = PENDING"
    by (simp add: decide_status_def pending_signals_def)
  have nxt: "?next = (fst ?next, snd ?next)"
    by simp
  note inst = main_loop_sheet_output
    [OF len sample_first_turn nxt ok ev refl refl refl,
     where timestamp = "[]" and rs = "[]"]
  from inst [THEN conjunct1]
  have turn: "trace (snd ?next)
       = trace ?w1
         @ [Page_Goto ''https://www.linkedin.com/in/satyanadella'',
            Initialize_Client,
            Spreadsheets_Get ''sheet-id'',
            Values_Update ''sheet-id'' ''Sheet1!B5:C5'' [[''pending'', ''0.9'']],
            Set_Timeout 1000,
            Values_Update ''sheet-id'' ''Sheet1!B5:C5'' [[''pending'', ''0.9'']],
            Set_Timeout 2000,
            Values_Update ''sheet-id'' ''Sheet1!B5:C5'' [[''pending'', ''0.9'']],
            Console (Error_Updating_Sheet ''Quota exceeded''),
            Set_Timeout 3000]"
    by (simp add: st sample_env_def sample_profiles_def handler_messages_def status_range_def
        nat_toString.simps digit_char_def)
  from inst [THEN conjunct2, THEN conjunct2, THEN conjunct1]
  have none: "file_writes (trace (snd (main_loop sample_env ''sheet-id'' ''Sheet1''
                 sample_profiles [] world0))) = []"
    by (simp add: world0_def)
  have w1: "snd (main_loop sample_env ''sheet-id'' ''Sheet1'' (take 1 sample_profiles)
                   [] world0) = ?w1"
    unfolding sample_first_turn by simp
  have turn': "trace (snd ?next)
       = trace (snd (main_loop sample_env ''sheet-id'' ''Sheet1'' (take 1 sample_profiles)
                       [] world0))
         @ [Page_Goto ''https://www.linkedin.com/in/satyanadella'',
            Initialize_Client,
            Spreadsheets_Get ''sheet-id'',
            Values_Update ''sheet-id'' ''Sheet1!B5:C5'' [[''pending'', ''0.9'']],
            Set_Timeout 1000,
            Values_Update ''sheet-id'' ''Sheet1!B5:C5'' [[''pending'', ''0.9'']],
            Set_Timeout 2000,
            Values_Update ''sheet-id'' ''Sheet1!B5:C5'' [[''pending'', ''0.9'']],
            Console (Error_Updating_Sheet ''Quota exceeded''),
            Set_Timeout 3000]"
    unfolding w1 by (rule turn)
  have ok': "processing_succeeds sample_env 1"
    using ok by simp
  have ev': "evaluation_at sample_env 1 = Inr pending_signals"
    using ev by simp
  show ?thesis
    by (intro conjI) (rule len ok' ev' st turn' none)+
qed

text \<open>
  The claim C5 as it was stated fails on the sample run: the three writes for the
  profile of row 5 fail, no later write targets that row, and no file is written.
\<close>

theorem fallback_export_counterexample:
  "values_update_at sample_env 0 = Some (Error ''Quota exceeded'')
   \<and> values_update_at sample_env 1 = Some (Error ''Quota exceeded'')
   \<and> values_update_at sample_env 2 = Some (Error ''Quota exceeded'')
   \<and> trace (snd (main_loop sample_env ''sheet-id'' ''Sheet1'' sample_profiles [] world0)) =
        [Page_Goto ''https://www.linkedin.com/in/williamhgates'',
         Console (Error_Processing ''https://www.linkedin.com/in/williamhgates''),
         Set_Timeout 3000,
         Page_Goto ''https://www.linkedin.com/in/satyanadella'',
         Initialize_Client,
         Spreadsheets_Get ''sheet-id'',
         Values_Update ''sheet-id'' ''Sheet1!B5:C5'' [[''pending'', ''0.9'']],
         Set_Timeout 1000,
         Values_Update ''sheet-id'' ''Sheet1!B5:C5'' [[''pending'', ''0.9'']],
         Set_Timeout 2000,
         Values_Update ''sheet-id'' ''Sheet1!B5:C5'' [[''pending'', ''0.9'']],
         Console (Error_Updating_Sheet ''Quota exceeded''),
         Set_Timeout 3000,
         Page_Goto ''linkedin.com/in/sundarpichai'',
         Initialize_Client,
         Spreadsheets_Get ''sheet-id'',
         Values_Update ''sheet-id'' ''Sheet1!B7:C7'' [[''not_connected'', ''0.9'']],
         Set_Timeout 3000]
   \<and> file_writes (trace (snd (main_loop sample_env ''sheet-id'' ''Sheet1'' sample_profiles [] world0)))
       = []"
  by (simp add: sample_run) (simp add: sample_env_def)

section \<open>Row numbers\<close>

text \<open>
  C7: the profiles returned by \<^verbatim>\<open>getProfiles\<close> carry the row numbers of the sheet.
  They are strictly increasing and at least 2; the profile with row \<open>r\<close> comes from the
  fetched row of index \<open>r - 2\<close>, whose first cell is not empty and is the URL that was
  normalised; every fetched row with such a cell gives a profile with row index + 2, so
  skipped rows do not renumber the later ones. After the load, \<^verbatim>\<open>processProfile\<close>
  changes neither the row nor the URL of a profile, and every result of the main loop has
  the row and the URL of a profile of the list.
\<close>

theorem rows_assigned_at_load:
  "(getProfiles trim e c w = (Inr profiles, c1, w1) \<longrightarrow>
      sorted_wrt (<) (map row profiles)
      \<and> (\<forall>p\<in>set profiles. 2 \<le> row p \<and> status p = None)
      \<and> (\<forall>rows. values_get_at e (reads w) = Inr (Some rows) \<longrightarrow>
            (\<forall>p\<in>set profiles. row p - 2 < length rows
               \<and> (\<exists>cell cells. rows ! (row p - 2) = cell # cells \<and> cell \<noteq> []
                     \<and> trim cell \<noteq> [] \<and> url p = normalizeLinkedInUrl cell))
            \<and> (\<forall>i<length rows. \<forall>cell cells.
                  rows ! i = cell # cells \<and> cell \<noteq> [] \<and> trim cell \<noteq> [] \<longrightarrow>
                  \<lparr>url = normalizeLinkedInUrl cell, status = None, row = i + 2\<rparr> \<in> set profiles)))
   \<and> (processProfile e profile wp = (Inr profile1, wp1) \<longrightarrow>
        row profile1 = row profile \<and> url profile1 = url profile)
   \<and> (\<forall>r\<in>set (fst (main_loop e sid sn ps results wl)).
        r \<in> set results \<or> (\<exists>p\<in>set ps. row r = row p \<and> url r = url p))"
proof (intro conjI impI)
  assume gp: "getProfiles trim e c w = (Inr profiles, c1, w1)"
  from getProfiles_cases [OF gp]
  have fetched: "\<And>rows. values_get_at e (reads w) = Inr (Some rows) \<Longrightarrow>
                    profiles = rows_profiles trim rows"
    by simp
  from getProfiles_cases [OF gp]
  have "profiles = rows_profiles trim [] \<or> (\<exists>rows. profiles = rows_profiles trim rows)"
    by (auto simp: rows_profiles_Nil split: sum.splits option.splits)
  then have shape: "\<exists>rows. profiles = rows_profiles trim rows"
    by blast
  from shape obtain rows0 where ps0: "profiles = rows_profiles trim rows0" by blast
  show "sorted_wrt (<) (map row profiles)"
    unfolding ps0 by (rule rows_profiles_sorted)
  show "\<forall>p\<in>set profiles. 2 \<le> row p \<and> status p = None"
    unfolding ps0 using rows_profiles_rows(1,3) by blast
  show "\<forall>rows. values_get_at e (reads w) = Inr (Some rows) \<longrightarrow>
            (\<forall>p\<in>set profiles. row p - 2 < length rows
               \<and> (\<exists>cell cells. rows ! (row p - 2) = cell # cells \<and> cell \<noteq> []
                     \<and> trim cell \<noteq> [] \<and> url p = normalizeLinkedInUrl cell))
            \<and> (\<forall>i<length rows. \<forall>cell cells.
                  rows ! i = cell # cells \<and> cell \<noteq> [] \<and> trim cell \<noteq> [] \<longrightarrow>
                  \<lparr>url = normalizeLinkedInUrl cell, status = None, row = i + 2\<rparr> \<in> set profiles)"
  proof (intro allI impI)
    fix rows
    assume "values_get_at e (reads w) = Inr (Some rows)"
    then have ps: "profiles = rows_profiles trim rows"
      by (rule fetched)
    have "\<forall>p\<in>set profiles. row p - 2 < length rows
               \<and> (\<exists>cell cells. rows ! (row p - 2) = cell # cells \<and> cell \<noteq> []
                     \<and> trim cell \<noteq> [] \<and> url p = normalizeLinkedInUrl cell)"
      unfolding ps using rows_profiles_rows(2,4) by blast
    moreover have "\<forall>i<length rows. \<forall>cell cells.
                  rows ! i = cell # cells \<and> cell \<noteq> [] \<and> trim cell \<noteq> [] \<longrightarrow>
                  \<lparr>url = normalizeLinkedInUrl cell, status = None, row = i + 2\<rparr> \<in> set profiles"
      unfolding ps using rows_profiles_complete by blast
    ultimately show "(\<forall>p\<in>set profiles. row p - 2 < length rows
               \<and> (\<exists>cell cells. rows ! (row p - 2) = cell # cells \<and> cell \<noteq> []
                     \<and> trim cell \<noteq> [] \<and> url p = normalizeLinkedInUrl cell))
            \<and> (\<forall>i<length rows. \<forall>cell cells.
                  rows ! i = cell # cells \<and> cell \<noteq> [] \<and> trim cell \<noteq> [] \<longrightarrow>
                  \<lparr>url = normalizeLinkedInUrl cell, status = None, row = i + 2\<rparr> \<in> set profiles)"
      by (rule conjI)
  qed
next
  assume "processProfile e profile wp = (Inr profile1, wp1)"
  then show "row profile1 = row profile" "url profile1 = url profile"
    using processProfile_keeps_row by blast+
next
  show "\<forall>r\<in>set (fst (main_loop e sid sn ps results wl)).
        r \<in> set results \<or> (\<exists>p\<in>set ps. row r = row p \<and> url r = url p)"
    using main_loop_results [of e sid sn ps results wl] by fastforce
qed

theorem rows_assigned_at_load_witness:
  "getProfiles trim_spaces sample_env sample_client world0
     = (Inr sample_profiles, sample_client\<lparr>initialized := True\<rparr>,
        world0\<lparr>gets := 1, reads := 1,
               trace := [Spreadsheets_Get ''sheet-id'', Values_Get ''sheet-id'' ''Sheet1!A2:A'']\<rparr>)
   \<and> values_get_at sample_env (reads world0) = Inr (Some sample_rows)
   \<and> processProfile sample_env (sample_profiles ! 1) (world0\<lparr>visits := 1\<rparr>)
       = (Inr ((sample_profiles ! 1)\<lparr>status := Some PENDING\<rparr>),
          world0\<lparr>visits := 2, trace := [Page_Goto ''https://www.linkedin.com/in/satyanadella'']\<rparr>)
   \<and> sorted_wrt (<) (map row sample_profiles)
   \<and> 2 \<le> row (sample_profiles ! 2) \<and> row (sample_profiles ! 2) - 2 < length sample_rows
   \<and> \<lparr>url = normalizeLinkedInUrl ''linkedin.com/sundarpichai'', status = None, row = 5 + 2\<rparr>
       \<in> set sample_profiles
   \<and> row ((sample_profiles ! 1)\<lparr>status := Some PENDING\<rparr>) = row (sample_profiles ! 1)"
proof -
  have gp: "getProfiles trim_spaces sample_env sample_client world0
     = (Inr sample_profiles, sample_client\<lparr>initialized := True\<rparr>,
        world0\<lparr>gets := 1, reads := 1,
               trace := [Spreadsheets_Get ''sheet-id'', Values_Get ''sheet-id'' ''Sheet1!A2:A'']\<rparr>)"
    by code_simp
  have vg: "values_get_at sample_env (reads world0) = Inr (Some sample_rows)"
    by (simp add: sample_env_def)
  have pp: "processProfile sample_env (sample_profiles ! 1) (world0\<lparr>visits := 1\<rparr>)
       = (Inr ((sample_profiles ! 1)\<lparr>status := Some PENDING\<rparr>),
          world0\<lparr>visits := 2, trace := [Page_Goto ''https://www.linkedin.com/in/satyanadella'']\<rparr>)"
    by code_simp
  have cell: "5 < length sample_rows"
    "sample_rows ! 5 = ''linkedin.com/sundarpichai'' # []
       \<and> ''linkedin.com/sundarpichai'' \<noteq> [] \<and> trim_spaces ''linkedin.com/sundarpichai'' \<noteq> []"
    by (simp_all add: sample_rows_def trim_spaces_def)
  note inst = rows_assigned_at_load
    [where trim = trim_spaces and e = sample_env and c = sample_client and w = world0
       and profiles = sample_profiles and ?c1.0 = "sample_client\<lparr>initialized := True\<rparr>"
       and ?w1.0 = "world0\<lparr>gets := 1, reads := 1,
               trace := [Spreadsheets_Get ''sheet-id'', Values_Get ''sheet-id'' ''Sheet1!A2:A'']\<rparr>"
       and profile = "sample_profiles ! 1" and wp = "world0\<lparr>visits := 1\<rparr>"
       and ?profile1.0 = "(sample_profiles ! 1)\<lparr>status := Some PENDING\<rparr>"
       and ?wp1.0 = "world0\<lparr>visits := 2,
               trace := [Page_Goto ''https://www.linkedin.com/in/satyanadella'']\<rparr>"]
  from inst gp have "sorted_wrt (<) (map row sample_profiles)"
    by blast
  moreover have "sample_profiles ! 2 \<in> set sample_profiles"
    by (simp add: sample_profiles_def)
  with inst gp vg
  have "2 \<le> row (sample_profiles ! 2) \<and> row (sample_profiles ! 2) - 2 < length sample_rows"
    by blast
  moreover from inst gp vg cell
  have "\<lparr>url = normalizeLinkedInUrl ''linkedin.com/sundarpichai'', status = None, row = 5 + 2\<rparr>
       \<in> set sample_profiles"
    by blast
  moreover from inst pp
  have "row ((sample_profiles ! 1)\<lparr>status := Some PENDING\<rparr>) = row (sample_profiles ! 1)"
    by blast
  ultimately show ?thesis using gp vg pp by blast
qed

section \<open>What the normaliser returns\<close>

text \<open>
  C9, as the program has it: for an input that contains "linkedin.com", let \<open>s\<close> be the
  input cut at its first question mark, with one trailing slash removed. When \<open>s\<close>
  contains "/in/" the result is \<open>s\<close>; when it does not and \<open>s\<close> ends with
  "linkedin.com" (a bare host) the input is returned unchanged, its query string included;
  otherwise the result is \<open>s\<close> with its first "linkedin.com/" replaced by
  "linkedin.com/in/". Outside the bare-host case the result has no question mark. Both
  example URLs give "https://www.linkedin.com/in/satyanadella".
\<close>

theorem normalizeLinkedInUrl_by_cases:
  "(sublist ''linkedin.com'' u \<longrightarrow>
      normalizeLinkedInUrl u =
        (if sublist ''/in/'' (without_query_and_slash u) then without_query_and_slash u
         else if suffix ''linkedin.com'' (without_query_and_slash u) then u
         else str_replace (without_query_and_slash u) ''linkedin.com/'' ''linkedin.com/in/''))
   \<and> (sublist ''linkedin.com'' u
        \<and> (sublist ''/in/'' (without_query_and_slash u)
             \<or> \<not> suffix ''linkedin.com'' (without_query_and_slash u)) \<longrightarrow>
        CHR ''?'' \<notin> set (normalizeLinkedInUrl u))
   \<and> normalizeLinkedInUrl ''https://www.linkedin.com/in/satyanadella?trk=x''
       = ''https://www.linkedin.com/in/satyanadella''
   \<and> normalizeLinkedInUrl ''https://www.linkedin.com/in/satyanadella/''
       = ''https://www.linkedin.com/in/satyanadella''"
proof (intro conjI impI)
  assume "sublist ''linkedin.com'' u"
  then have "u \<noteq> []" by auto
  with \<open>sublist ''linkedin.com'' u\<close>
  show "normalizeLinkedInUrl u =
        (if sublist ''/in/'' (without_query_and_slash u) then without_query_and_slash u
         else if suffix ''linkedin.com'' (without_query_and_slash u) then u
         else str_replace (without_query_and_slash u) ''linkedin.com/'' ''linkedin.com/in/'')"
    by (simp add: normalizeLinkedInUrl_cases)
next
  assume a: "sublist ''linkedin.com'' u
        \<and> (sublist ''/in/'' (without_query_and_slash u)
             \<or> \<not> suffix ''linkedin.com'' (without_query_and_slash u))"
  then have "u \<noteq> []" by auto
  have "CHR ''?'' \<notin> set (str_replace (without_query_and_slash u)
                             ''linkedin.com/'' ''linkedin.com/in/'')"
    using str_replace_chars [of "without_query_and_slash u" "''linkedin.com/''"
        "''linkedin.com/in/''"] without_query_chars [of u]
    by auto
  with a \<open>u \<noteq> []\<close> show "CHR ''?'' \<notin> set (normalizeLinkedInUrl u)"
    using without_query_chars [of u] by (auto simp: normalizeLinkedInUrl_cases)
next
  show "normalizeLinkedInUrl ''https://www.linkedin.com/in/satyanadella?trk=x''
       = ''https://www.linkedin.com/in/satyanadella''"
    by code_simp
  show "normalizeLinkedInUrl ''https://www.linkedin.com/in/satyanadella/''
       = ''https://www.linkedin.com/in/satyanadella''"
    by code_simp
qed

theorem normalizeLinkedInUrl_by_cases_witness:
  "sublist ''linkedin.com'' ''https://linkedin.com/company/acme/?ref=1''
   \<and> \<not> suffix ''linkedin.com'' (without_query_and_slash ''https://linkedin.com/company/acme/?ref=1'')
   \<and> without_query_and_slash ''https://linkedin.com/company/acme/?ref=1''
       = ''https://linkedin.com/company/acme''
   \<and> normalizeLinkedInUrl ''https://linkedin.com/company/acme/?ref=1''
       = ''https://linkedin.com/in/company/acme''
   \<and> CHR ''?'' \<notin> set (normalizeLinkedInUrl ''https://linkedin.com/company/acme/?ref=1'')"
  using normalizeLinkedInUrl_by_cases [of "''https://linkedin.com/company/acme/?ref=1''"]
  by (simp add: str_includes_sublist [symmetric] str_endsWith_suffix [symmetric]
      without_query_and_slash_def str_endsWith_def)

text \<open>
  The claim C9 as it was stated fails on a bare host with a query string: the input is
  returned as it is, with the question mark and what follows it.
\<close>

theorem bare_host_keeps_query_counterexample:
  "str_includes ''https://www.linkedin.com/?trk=x'' ''linkedin.com''
   \<and> without_query_and_slash ''https://www.linkedin.com/?trk=x'' = ''https://www.linkedin.com''
   \<and> normalizeLinkedInUrl ''https://www.linkedin.com/?trk=x'' = ''https://www.linkedin.com/?trk=x''"
  by (simp add: normalizeLinkedInUrl_def strip_trailing_slash_def str_endsWith_def
      without_query_and_slash_def suffix_slash)

text \<open>
  C4: the normaliser is claimed to be idempotent. The program is not on an input that ends
  with two slashes: one application removes one slash and returns a URL that still ends
  with a slash, the next application removes that one too. This is the only way for
  idempotence to fail: \<open>normalize_idempotent_without_double_slash\<close> proves it on every
  input whose part before the first question mark does not end with two slashes.
\<close>

theorem normalizeLinkedInUrl_not_idempotent:
  "normalizeLinkedInUrl ''https://www.linkedin.com/in/satyanadella//''
     = ''https://www.linkedin.com/in/satyanadella/''
   \<and> normalizeLinkedInUrl (normalizeLinkedInUrl ''https://www.linkedin.com/in/satyanadella//'')
     = ''https://www.linkedin.com/in/satyanadella''
   \<and> normalizeLinkedInUrl (normalizeLinkedInUrl ''https://www.linkedin.com/in/satyanadella//'')
     \<noteq> normalizeLinkedInUrl ''https://www.linkedin.com/in/satyanadella//''"
  by code_simp

end
